theory Spec2Isabelle
  imports Main "HOL-Library.Word"
begin

section \<open>Strings and paths\<close>

text \<open>
  The program (\<^verbatim>\<open>cmd/gardepro/gardepro.go\<close>) works on Go strings, which are byte
  sequences: they are \<^typ>\<open>string\<close> here. The functions of this section are the
  ones of Go's \<^verbatim>\<open>strings\<close> and \<^verbatim>\<open>path/filepath\<close> packages that \<^verbatim>\<open>main\<close>
  calls, on a Unix system (separator \<^verbatim>\<open>/\<close>, no volume names).
\<close>

text \<open>
  \<^verbatim>\<open>strings.ToLower\<close>, on bytes: the letters A to Z go to a to z, every other byte is
  kept. Go maps runes, so it also changes letters outside ASCII; no such letter is mapped
  to one of the bytes of \<^verbatim>\<open>.jpg\<close>, \<^verbatim>\<open>.jpeg\<close> or \<^verbatim>\<open>.mp4\<close>, the only strings the
  result is compared with.
\<close>

definition lower_char :: "char \<Rightarrow> char" where
  "lower_char c =
     (let n = (of_char c :: nat) in if 65 \<le> n \<and> n \<le> 90 then char_of (n + 32) else c)"

definition ToLower :: "string \<Rightarrow> string" where
  "ToLower s = map lower_char s"

text \<open>
  \<^verbatim>\<open>strings.TrimSuffix(s, suffix)\<close>: \<^verbatim>\<open>s\<close> without the suffix when it ends with it,
  \<^verbatim>\<open>s\<close> itself otherwise. One occurrence is removed, not all.
\<close>

definition HasSuffix :: "string \<Rightarrow> string \<Rightarrow> bool" where
  "HasSuffix s suf =
     (length suf \<le> length s \<and> drop (length s - length suf) s = suf)"

definition TrimSuffix :: "string \<Rightarrow> string \<Rightarrow> string" where
  "TrimSuffix s suf = (if HasSuffix s suf then take (length s - length suf) s else s)"

text \<open>
  \<^verbatim>\<open>filepath.Ext\<close> walks back from the end of the path until a separator and returns the
  text from the first dot it meets; the empty string when it meets none.
  \<^verbatim>\<open>ext_scan\<close> is that loop on the reversed path, with the bytes already passed.
\<close>

fun ext_scan :: "string \<Rightarrow> string \<Rightarrow> string" where
  "ext_scan [] seen = []"
| "ext_scan (c # cs) seen =
     (if c = CHR ''/'' then []
      else if c = CHR ''.'' then c # seen
      else ext_scan cs (c # seen))"

definition Ext :: "string \<Rightarrow> string" where
  "Ext path = ext_scan (rev path) []"

text \<open>
  \<^verbatim>\<open>filepath.Base\<close>: the last element of the path. Trailing separators are removed
  first; the empty path gives \<^verbatim>\<open>.\<close> and a path of separators only gives \<^verbatim>\<open>/\<close>.
\<close>

definition Base :: "string \<Rightarrow> string" where
  "Base path =
     (if path = [] then ''.''
      else let p = dropWhile (\<lambda>c. c = CHR ''/'') (rev path);
               e = rev (takeWhile (\<lambda>c. c \<noteq> CHR ''/'') p)
           in if e = [] then ''/'' else e)"

section \<open>Kind of a media file\<close>

text \<open>
  The \<^verbatim>\<open>switch\<close> of \<^verbatim>\<open>main\<close> (line 112) chooses the extractor from the lowercased
  extension of the source path: \<^verbatim>\<open>.jpg\<close> and \<^verbatim>\<open>.jpeg\<close> are images, \<^verbatim>\<open>.mp4\<close> is
  video, and the \<^verbatim>\<open>default\<close> case carries the extension into the error message.
\<close>

datatype kind = Image | Video | Unsupported string

definition kindOf :: "string \<Rightarrow> kind" where
  "kindOf source =
     (let ext = ToLower (Ext source) in
      if ext = ''.jpg'' \<or> ext = ''.jpeg'' then Image
      else if ext = ''.mp4'' then Video
      else Unsupported ext)"

section \<open>Go's \<^verbatim>\<open>time\<close> package\<close>

text \<open>
  A \<^verbatim>\<open>time.Time\<close> is an instant and a location. The instant is kept as seconds since
  the Unix epoch (the program never produces a fraction of a second that it prints). A
  location is a first offset east of UTC, in seconds, and the transitions of the zone,
  each with the instant it starts at and its offset, in the order of time; the offset at
  an instant is that of the last transition not after it. \<^verbatim>\<open>time.UTC\<close> has no
  transition and the offset 0, and the package variable \<^verbatim>\<open>localTimeZone\<close> of the
  program (\<^verbatim>\<open>time.Now().Location()\<close>, line 57) is whatever the machine is configured
  with, so it is a parameter of the model.
\<close>

datatype location = Location int "(int \<times> int) list"

fun lookup :: "location \<Rightarrow> int \<Rightarrow> int" where
  "lookup (Location first tx) sec =
     foldl (\<lambda>off (w, off'). if w \<le> sec then off' else off) first tx"

record gotime =
  unixSec :: int
  loc :: location

definition UTC :: location where
  "UTC = Location 0 []"

text \<open>
  Go computes calendar fields from the ``absolute'' time, counted in seconds from
  January 1 of a year that is 1 modulo 400 and far in the past, so that its unsigned
  arithmetic never sees a negative number. Every quotient below is taken with
  Isabelle's flooring \<open>div\<close> on \<^typ>\<open>int\<close>, which gives the same calendar with the count
  starting at January 1 of year 1 (Go's \<^verbatim>\<open>unixToInternal\<close>): the two counts differ by
  a whole number of 400-year cycles.
\<close>

definition secondsPerDay :: int where "secondsPerDay = 86400"
definition daysPer400Years :: int where "daysPer400Years = 146097"
definition daysPer100Years :: int where "daysPer100Years = 36524"
definition daysPer4Years :: int where "daysPer4Years = 1461"

definition unixToInternal :: int where
  "unixToInternal = (1969 * 365 + 1969 div 4 - 1969 div 100 + 1969 div 400) * secondsPerDay"

definition abs_sec :: "gotime \<Rightarrow> int" where
  "abs_sec t = unixSec t + lookup (loc t) (unixSec t) + unixToInternal"

definition isLeap :: "int \<Rightarrow> bool" where
  "isLeap year = (year mod 4 = 0 \<and> (year mod 100 \<noteq> 0 \<or> year mod 400 = 0))"

definition daysBefore :: "int list" where
  "daysBefore = [0, 31, 59, 90, 120, 151, 181, 212, 243, 273, 304, 334, 365]"

text \<open>
  \<^verbatim>\<open>absDate\<close>, first half: the year and the day of the year (from 0) of a day count.
\<close>

definition absYear :: "int \<Rightarrow> int \<times> int" where
  "absYear days =
     (let n1 = days div daysPer400Years;
          d1 = days - daysPer400Years * n1;
          n2 = d1 div daysPer100Years;
          n2' = n2 - n2 div 4;
          d2 = d1 - daysPer100Years * n2';
          n3 = d2 div daysPer4Years;
          d3 = d2 - daysPer4Years * n3;
          n4 = d3 div 365;
          n4' = n4 - n4 div 4;
          d4 = d3 - 365 * n4'
      in (400 * n1 + 100 * n2' + 4 * n3 + n4' + 1, d4))"

text \<open>
  \<^verbatim>\<open>absDate\<close>, second half: month (1 to 12) and day of the month of a day of the year.
  The month is estimated as if every month had 31 days and moved up by one when the
  table says so; in a leap year the days after February 29 are counted as if it were
  not there.
\<close>

definition monthEstimate :: "int \<Rightarrow> int \<times> int" where
  "monthEstimate day =
     (let m = day div 31;
          e = daysBefore ! nat (m + 1)
      in if day \<ge> e then (m + 2, day - e + 1)
         else (m + 1, day - daysBefore ! nat m + 1))"

definition monthDay :: "int \<Rightarrow> int \<Rightarrow> int \<times> int" where
  "monthDay year yday =
     (if isLeap year \<and> yday = 31 + 29 - 1 then (2, 29)
      else monthEstimate (if isLeap year \<and> yday > 31 + 29 - 1 then yday - 1 else yday))"

definition Year :: "gotime \<Rightarrow> int" where
  "Year t = fst (absYear (abs_sec t div secondsPerDay))"

definition YearDay0 :: "gotime \<Rightarrow> int" where
  "YearDay0 t = snd (absYear (abs_sec t div secondsPerDay))"

definition Month :: "gotime \<Rightarrow> int" where
  "Month t = fst (monthDay (Year t) (YearDay0 t))"

definition Day :: "gotime \<Rightarrow> int" where
  "Day t = snd (monthDay (Year t) (YearDay0 t))"

definition Hour :: "gotime \<Rightarrow> int" where
  "Hour t = (abs_sec t mod secondsPerDay) div 3600"

definition Minute :: "gotime \<Rightarrow> int" where
  "Minute t = ((abs_sec t mod secondsPerDay) mod 3600) div 60"

definition Second :: "gotime \<Rightarrow> int" where
  "Second t = (abs_sec t mod secondsPerDay) mod 60"

text \<open>
  \<^verbatim>\<open>time.Date(year, month, day, hour, min, sec, 0, time.UTC)\<close>. Go first normalises
  fields that are out of range, carrying into the next one; on the total of seconds
  that is plain arithmetic, and for the month it is the quotient and remainder by 12.
\<close>

definition daysSinceEpoch :: "int \<Rightarrow> int" where
  "daysSinceEpoch year =
     (let y = year - 1;
          n1 = y div 400; y1 = y - 400 * n1;
          n2 = y1 div 100; y2 = y1 - 100 * n2;
          n3 = y2 div 4; y3 = y2 - 4 * n3
      in daysPer400Years * n1 + daysPer100Years * n2 + daysPer4Years * n3 + 365 * y3)"

definition DateUTC :: "int \<Rightarrow> int \<Rightarrow> int \<Rightarrow> int \<Rightarrow> int \<Rightarrow> int \<Rightarrow> gotime" where
  "DateUTC year month day hour minute sec =
     (let m0 = month - 1;
          y = year + m0 div 12;
          m = m0 mod 12 + 1;
          d = daysSinceEpoch y + daysBefore ! nat (m - 1)
                + (if isLeap y \<and> m \<ge> 3 then 1 else 0) + (day - 1);
          a = d * secondsPerDay + hour * 3600 + minute * 60 + sec
      in \<lparr>unixSec = a - unixToInternal, loc = UTC\<rparr>)"

text \<open>
  A \<^verbatim>\<open>time.Duration\<close> is a signed 64-bit count of nanoseconds, and the product
  \<^verbatim>\<open>time.Second * time.Duration(x)\<close> of line 149 is a 64-bit multiplication, which
  wraps. \<^verbatim>\<open>t.Add(d)\<close> moves the instant by the whole seconds of \<^verbatim>\<open>d\<close>; the rest is
  carried in the nanoseconds, rounding the seconds down, and the nanoseconds are not
  part of this model. \<^verbatim>\<open>t.In(loc)\<close> is the same instant seen from another location.
\<close>

type_synonym duration = "64 word"

definition Second_ns :: duration where
  "Second_ns = 1000000000"

definition Add :: "gotime \<Rightarrow> duration \<Rightarrow> gotime" where
  "Add t d = t\<lparr>unixSec := unixSec t + sint d div 1000000000\<rparr>"

definition In :: "gotime \<Rightarrow> location \<Rightarrow> gotime" where
  "In t l = t\<lparr>loc := l\<rparr>"

subsection \<open>Layouts\<close>

text \<open>
  \<^verbatim>\<open>Format\<close> and \<^verbatim>\<open>Parse\<close> read a layout as literal text and reference fields of the
  time \<^verbatim>\<open>Mon Jan 2 15:04:05 MST 2006\<close>. The fields modelled are the numeric ones of
  the date and of the 24-hour clock. A layout that names any other field (month and
  weekday names, \<^verbatim>\<open>PM\<close>, time zones, fractions of a second, \<^verbatim>\<open>06\<close>, \<^verbatim>\<open>03\<close>, \<^verbatim>\<open>3\<close>, the
  day of the year) is outside the model: \<^verbatim>\<open>layout_chunks\<close> is \<open>None\<close> for it. The three
  layouts of the program are inside (\<^verbatim>\<open>/2006\<close>, \<^verbatim>\<open>/2006/01-02-15:04:05-\<close> and
  \<^verbatim>\<open>2006:01:02 15:04:05\<close>).
\<close>

datatype std =
    stdLongYear | stdZeroMonth | stdNumMonth | stdZeroDay | stdUnderDay | stdDay
  | stdHour | stdZeroMinute | stdMinute | stdZeroSecond | stdSecond

datatype chunk = Lit string | Std std

definition starts :: "string \<Rightarrow> string \<Rightarrow> bool" where
  "starts p s = (take (length p) s = p)"

definition isDigitChar :: "char \<Rightarrow> bool" where
  "isDigitChar c = (48 \<le> (of_char c :: nat) \<and> (of_char c :: nat) \<le> 57)"

text \<open>
  The field at the head of a layout, with its length, in the order in which
  \<^verbatim>\<open>nextStdChunk\<close> tests them for each first byte. An underscore before \<^verbatim>\<open>2006\<close> is
  literal text.
\<close>

definition stdAt :: "string \<Rightarrow> (std \<times> nat) option" where
  "stdAt s =
     (if starts ''01'' s then Some (stdZeroMonth, 2)
      else if starts ''02'' s then Some (stdZeroDay, 2)
      else if starts ''04'' s then Some (stdZeroMinute, 2)
      else if starts ''05'' s then Some (stdZeroSecond, 2)
      else if starts ''15'' s then Some (stdHour, 2)
      else if starts ''1'' s then Some (stdNumMonth, 1)
      else if starts ''2006'' s then Some (stdLongYear, 4)
      else if starts ''2'' s then Some (stdDay, 1)
      else if starts ''_2'' s \<and> \<not> starts ''_2006'' s then Some (stdUnderDay, 2)
      else if starts ''4'' s then Some (stdMinute, 1)
      else if starts ''5'' s then Some (stdSecond, 1)
      else None)"

definition fracAt :: "string \<Rightarrow> bool" where
  "fracAt s =
     (case s of
        c # d # r \<Rightarrow>
          (c = CHR ''.'' \<or> c = CHR '','') \<and> (d = CHR ''0'' \<or> d = CHR ''9'') \<and>
          (case dropWhile (\<lambda>x. x = d) r of [] \<Rightarrow> True | x # _ \<Rightarrow> \<not> isDigitChar x)
      | _ \<Rightarrow> False)"

definition unmodelledAt :: "string \<Rightarrow> bool" where
  "unmodelledAt s =
     (starts ''Jan'' s \<or> starts ''Mon'' s \<or> starts ''MST'' s \<or> starts ''PM'' s \<or>
      starts ''pm'' s \<or> starts ''-07'' s \<or> starts ''Z07'' s \<or> starts ''002'' s \<or>
      starts ''03'' s \<or> starts ''06'' s \<or> starts ''3'' s \<or> starts ''__2'' s \<or>
      fracAt s)"

function layout_chunks :: "string \<Rightarrow> chunk list option" where
  "layout_chunks [] = Some []"
| "layout_chunks (c # cs) =
     (if unmodelledAt (c # cs) then None
      else case stdAt (c # cs) of
        Some (f, n) \<Rightarrow>
          (case layout_chunks (drop (n - 1) cs) of
             None \<Rightarrow> None
           | Some r \<Rightarrow> Some (Std f # r))
      | None \<Rightarrow>
          (case layout_chunks cs of
             None \<Rightarrow> None
           | Some (Lit l # r) \<Rightarrow> Some (Lit (c # l) # r)
           | Some r \<Rightarrow> Some (Lit [c] # r)))"
  by pat_completeness auto
termination
  by (relation "measure length") auto

subsection \<open>Formatting\<close>

text \<open>
  \<^verbatim>\<open>appendInt(b, x, width)\<close>: the decimal digits of \<^verbatim>\<open>x\<close>, after a minus sign when it
  is negative, padded with zeros on the left up to \<^verbatim>\<open>width\<close> digits. A number with more
  digits than \<^verbatim>\<open>width\<close> is written in full.
\<close>

definition digit :: "nat \<Rightarrow> char" where
  "digit n = char_of (48 + n)"

fun digits10 :: "nat \<Rightarrow> string" where
  "digits10 n = (if n < 10 then [digit n] else digits10 (n div 10) @ [digit (n mod 10)])"

declare digits10.simps [simp del]

definition appendInt :: "int \<Rightarrow> nat \<Rightarrow> string" where
  "appendInt x width =
     (let ds = digits10 (nat \<bar>x\<bar>)
      in (if x < 0 then ''-'' else []) @ replicate (width - length ds) (CHR ''0'') @ ds)"

definition formatStd :: "gotime \<Rightarrow> std \<Rightarrow> string" where
  "formatStd t f =
     (case f of
        stdLongYear \<Rightarrow> appendInt (Year t) 4
      | stdZeroMonth \<Rightarrow> appendInt (Month t) 2
      | stdNumMonth \<Rightarrow> appendInt (Month t) 0
      | stdZeroDay \<Rightarrow> appendInt (Day t) 2
      | stdUnderDay \<Rightarrow> (if Day t < 10 then '' '' else []) @ appendInt (Day t) 0
      | stdDay \<Rightarrow> appendInt (Day t) 0
      | stdHour \<Rightarrow> appendInt (Hour t) 2
      | stdZeroMinute \<Rightarrow> appendInt (Minute t) 2
      | stdMinute \<Rightarrow> appendInt (Minute t) 0
      | stdZeroSecond \<Rightarrow> appendInt (Second t) 2
      | stdSecond \<Rightarrow> appendInt (Second t) 0)"

definition formatChunk :: "gotime \<Rightarrow> chunk \<Rightarrow> string" where
  "formatChunk t c = (case c of Lit l \<Rightarrow> l | Std f \<Rightarrow> formatStd t f)"

definition Format :: "gotime \<Rightarrow> string \<Rightarrow> string" where
  "Format t layout =
     (case layout_chunks layout of
        None \<Rightarrow> []
      | Some cs \<Rightarrow> concat (map (formatChunk t) cs))"

subsection \<open>Parsing\<close>

text \<open>
  \<^verbatim>\<open>getnum\<close> reads one or two digits; with \<^verbatim>\<open>fixed\<close> it insists on two.
\<close>

definition digitVal :: "char \<Rightarrow> int" where
  "digitVal c = int (of_char c) - 48"

definition getnum :: "string \<Rightarrow> bool \<Rightarrow> (int \<times> string) option" where
  "getnum s fixed =
     (case s of
        [] \<Rightarrow> None
      | c # r \<Rightarrow>
          if \<not> isDigitChar c then None
          else (case r of
                  [] \<Rightarrow> if fixed then None else Some (digitVal c, r)
                | d # r' \<Rightarrow>
                    if isDigitChar d then Some (digitVal c * 10 + digitVal d, r')
                    else if fixed then None else Some (digitVal c, r)))"

text \<open>
  \<^verbatim>\<open>skip\<close> matches the literal text of a layout against the value. A space of the
  layout stands for any run of spaces of the value, the empty one too.
\<close>

definition cutspace :: "string \<Rightarrow> string" where
  "cutspace s = dropWhile (\<lambda>c. c = CHR '' '') s"

function skip :: "string \<Rightarrow> string \<Rightarrow> string option" where
  "skip v [] = Some v"
| "skip v (p # ps) =
     (if p = CHR '' '' then
        (if v \<noteq> [] \<and> hd v \<noteq> CHR '' '' then None
         else skip (cutspace v) (cutspace ps))
      else (case v of
              [] \<Rightarrow> None
            | c # r \<Rightarrow> if c \<noteq> p then None else skip r ps))"
  by pat_completeness auto
termination
  by (relation "measure (\<lambda>(v, p). length p)")
     (auto simp: cutspace_def less_Suc_eq_le length_dropWhile_le)

record fields =
  fYear :: int
  fMonth :: int
  fDay :: int
  fHour :: int
  fMin :: int
  fSec :: int

text \<open>
  The year of \<^verbatim>\<open>2006\<close> is exactly four digits. After the seconds, a fraction that the
  layout does not ask for (a period or a comma and digits) is read and, here, dropped.
\<close>

definition parseStd :: "std \<Rightarrow> string \<Rightarrow> fields \<Rightarrow> (fields \<times> string) option" where
  "parseStd f v p =
     (case f of
        stdLongYear \<Rightarrow>
          if length v < 4 \<or> \<not> list_all isDigitChar (take 4 v) then None
          else Some (p\<lparr>fYear := digitVal (v ! 0) * 1000 + digitVal (v ! 1) * 100
                                 + digitVal (v ! 2) * 10 + digitVal (v ! 3)\<rparr>, drop 4 v)
      | stdZeroMonth \<Rightarrow>
          (case getnum v True of None \<Rightarrow> None
           | Some (n, r) \<Rightarrow> if n \<le> 0 \<or> 12 < n then None else Some (p\<lparr>fMonth := n\<rparr>, r))
      | stdNumMonth \<Rightarrow>
          (case getnum v False of None \<Rightarrow> None
           | Some (n, r) \<Rightarrow> if n \<le> 0 \<or> 12 < n then None else Some (p\<lparr>fMonth := n\<rparr>, r))
      | stdZeroDay \<Rightarrow>
          (case getnum v True of None \<Rightarrow> None | Some (n, r) \<Rightarrow> Some (p\<lparr>fDay := n\<rparr>, r))
      | stdDay \<Rightarrow>
          (case getnum v False of None \<Rightarrow> None | Some (n, r) \<Rightarrow> Some (p\<lparr>fDay := n\<rparr>, r))
      | stdUnderDay \<Rightarrow>
          (case getnum (if starts '' '' v then tl v else v) False of
             None \<Rightarrow> None | Some (n, r) \<Rightarrow> Some (p\<lparr>fDay := n\<rparr>, r))
      | stdHour \<Rightarrow>
          (case getnum v False of None \<Rightarrow> None
           | Some (n, r) \<Rightarrow> if n < 0 \<or> 24 \<le> n then None else Some (p\<lparr>fHour := n\<rparr>, r))
      | stdZeroMinute \<Rightarrow>
          (case getnum v True of None \<Rightarrow> None
           | Some (n, r) \<Rightarrow> if n < 0 \<or> 60 \<le> n then None else Some (p\<lparr>fMin := n\<rparr>, r))
      | stdMinute \<Rightarrow>
          (case getnum v False of None \<Rightarrow> None
           | Some (n, r) \<Rightarrow> if n < 0 \<or> 60 \<le> n then None else Some (p\<lparr>fMin := n\<rparr>, r))
      | stdZeroSecond \<Rightarrow>
          (case getnum v True of None \<Rightarrow> None
           | Some (n, r) \<Rightarrow>
               if n < 0 \<or> 60 \<le> n then None
               else Some (p\<lparr>fSec := n\<rparr>,
                 (case r of
                    c # d # r' \<Rightarrow>
                      if (c = CHR ''.'' \<or> c = CHR '','') \<and> isDigitChar d
                      then dropWhile isDigitChar r' else r
                  | _ \<Rightarrow> r)))
      | stdSecond \<Rightarrow>
          (case getnum v False of None \<Rightarrow> None
           | Some (n, r) \<Rightarrow>
               if n < 0 \<or> 60 \<le> n then None
               else Some (p\<lparr>fSec := n\<rparr>,
                 (case r of
                    c # d # r' \<Rightarrow>
                      if (c = CHR ''.'' \<or> c = CHR '','') \<and> isDigitChar d
                      then dropWhile isDigitChar r' else r
                  | _ \<Rightarrow> r))))"

fun parseChunks :: "chunk list \<Rightarrow> string \<Rightarrow> fields \<Rightarrow> (fields \<times> string) option" where
  "parseChunks [] v p = Some (p, v)"
| "parseChunks (Lit l # cs) v p =
     (case skip v l of None \<Rightarrow> None | Some v' \<Rightarrow> parseChunks cs v' p)"
| "parseChunks (Std f # cs) v p =
     (case parseStd f v p of None \<Rightarrow> None | Some (p', v') \<Rightarrow> parseChunks cs v' p')"

definition daysIn :: "int \<Rightarrow> int \<Rightarrow> int" where
  "daysIn month year =
     (if month = 2 \<and> isLeap year then 29
      else daysBefore ! nat month - daysBefore ! nat (month - 1))"

text \<open>
  \<^verbatim>\<open>time.Parse(layout, value)\<close>: \<open>None\<close> is the \<^verbatim>\<open>*ParseError\<close>. Text left over after
  the layout is an error, and so is a day that the month does not have. A layout with
  no time zone gives a time in UTC.
\<close>

definition Parse :: "string \<Rightarrow> string \<Rightarrow> gotime option" where
  "Parse layout v =
     (case layout_chunks layout of
        None \<Rightarrow> None
      | Some cs \<Rightarrow>
          (case parseChunks cs v
                  \<lparr>fYear = 0, fMonth = -1, fDay = -1, fHour = 0, fMin = 0, fSec = 0\<rparr> of
             None \<Rightarrow> None
           | Some (p, r) \<Rightarrow>
               if r \<noteq> [] then None
               else let month = (if fMonth p < 0 then 1 else fMonth p);
                        day = (if fDay p < 0 then 1 else fDay p)
                    in if day < 1 \<or> day > daysIn month (fYear p) then None
                       else Some (DateUTC (fYear p) month day (fHour p) (fMin p) (fSec p))))"

section \<open>The file system and the log\<close>

text \<open>
  What the program sees of the file system, through \<^verbatim>\<open>os.Stat\<close>, \<^verbatim>\<open>os.Mkdir\<close>,
  \<^verbatim>\<open>os.Open\<close>, \<^verbatim>\<open>os.Create\<close> and \<^verbatim>\<open>io.Copy\<close>: a map from paths to regular files,
  with their bytes, and directories. Paths are taken as they are written: no symbolic
  links, no \<^verbatim>\<open>..\<close>, and the directory of a path is the text before its last separator.
  A call fails for a cause that the map shows, a missing entry or one of the wrong kind;
  permissions and failing disks are not modelled.
\<close>

type_synonym path = string

datatype errno = ENOENT | ENOTDIR | EEXIST | EISDIR

datatype node = File (content: string) | Dir

type_synonym filesystem = "path \<Rightarrow> node option"

definition parent_dir :: "path \<Rightarrow> path" where
  "parent_dir p =
     (if CHR ''/'' \<notin> set p then ''.''
      else let d = rev (tl (dropWhile (\<lambda>c. c \<noteq> CHR ''/'') (rev p)))
           in if d = [] then ''/'' else d)"

definition fs_stat :: "filesystem \<Rightarrow> path \<Rightarrow> errno + node" where
  "fs_stat fs p =
     (case fs p of
        Some n \<Rightarrow> Inr n
      | None \<Rightarrow> (case fs (parent_dir p) of Some (File c) \<Rightarrow> Inl ENOTDIR | _ \<Rightarrow> Inl ENOENT))"

definition fs_new_entry :: "filesystem \<Rightarrow> path \<Rightarrow> node \<Rightarrow> errno + filesystem" where
  "fs_new_entry fs p n =
     (case fs (parent_dir p) of
        None \<Rightarrow> Inl ENOENT
      | Some (File c) \<Rightarrow> Inl ENOTDIR
      | Some Dir \<Rightarrow> Inr (fs(p \<mapsto> n)))"

definition fs_mkdir :: "filesystem \<Rightarrow> path \<Rightarrow> errno + filesystem" where
  "fs_mkdir fs p =
     (case fs p of
        Some n \<Rightarrow> Inl EEXIST
      | None \<Rightarrow> fs_new_entry fs p Dir)"

definition fs_open :: "filesystem \<Rightarrow> path \<Rightarrow> errno + node" where
  "fs_open fs p = fs_stat fs p"

text \<open>\<^verbatim>\<open>os.Create\<close> truncates a file that exists and creates one that does not.\<close>

definition fs_create :: "filesystem \<Rightarrow> path \<Rightarrow> errno + filesystem" where
  "fs_create fs p =
     (case fs p of
        Some Dir \<Rightarrow> Inl EISDIR
      | Some (File c) \<Rightarrow> Inr (fs(p \<mapsto> File []))
      | None \<Rightarrow> fs_new_entry fs p (File []))"

text \<open>Reading all of an open file; a directory can be opened, not read.\<close>

definition read_all :: "node \<Rightarrow> errno + string" where
  "read_all n = (case n of File c \<Rightarrow> Inr c | Dir \<Rightarrow> Inl EISDIR)"

text \<open>
  The messages of the program, by the place that writes them. \<^verbatim>\<open>errorFatal\<close> is
  called with one of twelve messages; the error it is given is kept where the program
  can tell errors apart.
\<close>

datatype dir_error = NotADirectory | MakeTargetDir errno | StatTargetDir errno

datatype copy_error = OpenSourceFile errno | CreateTargetFile errno | CopyData errno

datatype place_error =
    CompareFiles errno | NotIdentical | CopyFileError copy_error | StatTargetFile errno

datatype index_error = GettingEXIFFromFile | GettingEXIFMapping | GettingEXIFIndex

datatype value_error = FindEXIFTag | WrongNumberOfTagResults nat | GettingTagValue

datatype mp4_error = OpenFile errno | ExtractBox

datatype fatal =
    GetEXIFIndex index_error
  | GetTagValue value_error
  | DateTimeNotString
  | ParseTime
  | GetMP4Metadata mp4_error
  | WrongNumberOfMetadata nat
  | ConvertPayload
  | UnrecognizedExtension string
  | NoTargetDir
  | NoTargetPath
  | CheckTargetDir dir_error
  | CopySource place_error

datatype log_entry =
    Separator | Starting | FinishedEntry | SkippingIdentical | CopiedFile
  | FatalEntry fatal | FindTagById | DebugTag string | EnumeratingIndex

text \<open>
  The logger writes to the console or to the log file (lines 82 to 92). The bytes of the
  log file are not part of the file system above: each line carries the time of day it
  was written at. What is kept is the trace: every call that reaches the file system,
  every line given to the logger with the place it goes to, and every dialog box.
  \<^verbatim>\<open>EvWrite\<close> is \<^verbatim>\<open>io.Copy\<close> storing the bytes it has read.
\<close>

datatype sink = Console | LogFile path

datatype event =
    EvOpenLog path
  | EvLog sink log_entry
  | EvDialog string
  | EvStat path
  | EvMkdir path
  | EvOpen path
  | EvCreate path
  | EvWrite path

record state =
  fs :: filesystem
  trace :: "event list"

definition emit :: "event list \<Rightarrow> state \<Rightarrow> state" where
  "emit es st = st\<lparr>trace := trace st @ es\<rparr>"

section \<open>Placing the file\<close>

text \<open>
  \<^verbatim>\<open>checkTargetDir\<close> (lines 176 to 189). The Go function returns an error or
  \<^verbatim>\<open>nil\<close>: \<open>None\<close> is \<^verbatim>\<open>nil\<close>.
\<close>

definition checkTargetDir :: "path \<Rightarrow> state \<Rightarrow> dir_error option \<times> state" where
  "checkTargetDir targetDir st =
     (let st1 = emit [EvStat targetDir] st in
      case fs_stat (fs st1) targetDir of
        Inr n \<Rightarrow> (case n of Dir \<Rightarrow> (None, st1) | File c \<Rightarrow> (Some NotADirectory, st1))
      | Inl e \<Rightarrow>
          if e = ENOENT then
            (let st2 = emit [EvMkdir targetDir] st1 in
             case fs_mkdir (fs st2) targetDir of
               Inl e' \<Rightarrow> (Some (MakeTargetDir e'), st2)
             | Inr fs' \<Rightarrow> (None, st2\<lparr>fs := fs'\<rparr>))
          else (Some (StatTargetDir e), st1))"

text \<open>
  \<^verbatim>\<open>copyFile\<close> (lines 212 to 227): the target is created before the first byte of the
  source is read, so a source that opens and cannot be read leaves an empty target.
\<close>

definition copyFile :: "path \<Rightarrow> path \<Rightarrow> state \<Rightarrow> copy_error option \<times> state" where
  "copyFile source target st =
     (let st1 = emit [EvOpen source] st in
      case fs_open (fs st1) source of
        Inl e \<Rightarrow> (Some (OpenSourceFile e), st1)
      | Inr sourceFile \<Rightarrow>
          (let st2 = emit [EvCreate target] st1 in
           case fs_create (fs st2) target of
             Inl e \<Rightarrow> (Some (CreateTargetFile e), st2)
           | Inr fs' \<Rightarrow>
               (let st3 = st2\<lparr>fs := fs'\<rparr> in
                case read_all sourceFile of
                  Inl e \<Rightarrow> (Some (CopyData e), st3)
                | Inr bytes \<Rightarrow>
                    (None, emit [EvWrite target]
                             (st3\<lparr>fs := (fs st3)(target \<mapsto> File bytes)\<rparr>)))))"

text \<open>
  \<^verbatim>\<open>fileCompare.CompareFile\<close> of the package \<^verbatim>\<open>equalfile\<close>: both files are opened and
  read, and the answer is whether they hold the same bytes.
\<close>

definition CompareFile :: "path \<Rightarrow> path \<Rightarrow> state \<Rightarrow> (errno + bool) \<times> state" where
  "CompareFile path1 path2 st =
     (let st1 = emit [EvOpen path1] st in
      case fs_open (fs st1) path1 of
        Inl e \<Rightarrow> (Inl e, st1)
      | Inr n1 \<Rightarrow>
          (let st2 = emit [EvOpen path2] st1 in
           case fs_open (fs st2) path2 of
             Inl e \<Rightarrow> (Inl e, st2)
           | Inr n2 \<Rightarrow>
               (case read_all n1 of
                  Inl e \<Rightarrow> (Inl e, st2)
                | Inr c1 \<Rightarrow>
                    (case read_all n2 of
                       Inl e \<Rightarrow> (Inl e, st2)
                     | Inr c2 \<Rightarrow> (Inr (c1 = c2), st2)))))"

text \<open>
  \<^verbatim>\<open>copySourceToTarget\<close> (lines 191 to 210). It returns \<^verbatim>\<open>nil\<close> both when it copied
  and when it found the same file in place; the two differ by the line they log. The
  parameter \<^verbatim>\<open>extra\<close> of the Go function only adds fields to that line.
\<close>

definition copySourceToTarget ::
    "sink \<Rightarrow> path \<Rightarrow> path \<Rightarrow> state \<Rightarrow> place_error option \<times> state" where
  "copySourceToTarget lg source target st =
     (let st1 = emit [EvStat target] st in
      case fs_stat (fs st1) target of
        Inr n \<Rightarrow>
          (case CompareFile source target st1 of
             (Inl e, st2) \<Rightarrow> (Some (CompareFiles e), st2)
           | (Inr equal, st2) \<Rightarrow>
               if equal then (None, emit [EvLog lg SkippingIdentical] st2)
               else (Some NotIdentical, st2))
      | Inl e \<Rightarrow>
          if e = ENOENT then
            (case copyFile source target st1 of
               (Some ce, st2) \<Rightarrow> (Some (CopyFileError ce), st2)
             | (None, st2) \<Rightarrow> (None, emit [EvLog lg CopiedFile] st2))
          else (Some (StatTargetFile e), st1))"

section \<open>Metadata\<close>

text \<open>
  The EXIF and MP4 decoders are libraries (\<^verbatim>\<open>go-exif\<close>, \<^verbatim>\<open>go-mp4\<close>). What they find
  in the bytes of a file is a parameter of the model; what the program does with their
  answers is below. An IFD maps a tag number to the entries that carry it; the value of
  an entry may fail to decode (\<open>None\<close>), and only an ASCII value is a Go string.
\<close>

datatype exif_value = AsciiValue string | OtherValue

datatype tag_entry = TagEntry "exif_value option"

type_synonym ifd = "16 word \<Rightarrow> tag_entry list option"

record IfdIndex =
  RootIfd :: ifd
  Lookup :: "string \<Rightarrow> ifd option"
  TagPaths :: "string list"
  EnumerateFails :: bool

record Mvhd =
  Version :: "8 word"
  CreationTimeV0 :: "32 word"
  CreationTimeV1 :: "64 word"

datatype payload = MvhdPayload Mvhd | OtherPayload

record env =
  exifCollect :: "string \<Rightarrow> index_error + IfdIndex"
  mp4Extract :: "string \<Rightarrow> payload list option"
  localTimeZone :: location
  openLogFile :: "path \<Rightarrow> bool"

definition tagIDDateTime :: "16 word" where
  "tagIDDateTime = 0x132"

definition EXIFgetIndex :: "env \<Rightarrow> path \<Rightarrow> state \<Rightarrow> (index_error + IfdIndex) \<times> state" where
  "EXIFgetIndex ev p st =
     (let st1 = emit [EvOpen p] st in
      case fs_open (fs st1) p of
        Inl e \<Rightarrow> (Inl GettingEXIFFromFile, st1)
      | Inr n \<Rightarrow>
          (case read_all n of
             Inl e \<Rightarrow> (Inl GettingEXIFFromFile, st1)
           | Inr bytes \<Rightarrow> (exifCollect ev bytes, st1)))"

text \<open>
  \<^verbatim>\<open>EXIFenumerateIndex\<close> logs one line for each tag of the index, and
  \<^verbatim>\<open>EXIFgetValue\<close> (lines 275 to 295) looks the tag up in the root IFD and, failing
  that, in \<^verbatim>\<open>IFD/Exif\<close>; a missing \<^verbatim>\<open>IFD/Exif\<close> is an error of the second lookup.
\<close>

definition EXIFenumerateIndex :: "sink \<Rightarrow> IfdIndex \<Rightarrow> state \<Rightarrow> bool \<times> state" where
  "EXIFenumerateIndex lg index st =
     (EnumerateFails index, emit (map (\<lambda>p. EvLog lg (DebugTag p)) (TagPaths index)) st)"

definition FindTagWithId :: "ifd option \<Rightarrow> 16 word \<Rightarrow> tag_entry list option" where
  "FindTagWithId i tagID = (case i of None \<Rightarrow> None | Some entries \<Rightarrow> entries tagID)"

definition EXIFgetValue ::
    "sink \<Rightarrow> IfdIndex \<Rightarrow> 16 word \<Rightarrow> state \<Rightarrow> (value_error + exif_value) \<times> state" where
  "EXIFgetValue lg index tagID st =
     (let found = (case FindTagWithId (Some (RootIfd index)) tagID of
                     Some r \<Rightarrow> Some r
                   | None \<Rightarrow> FindTagWithId (Lookup index ''IFD/Exif'') tagID)
      in case found of
           None \<Rightarrow>
             (let st1 = emit [EvLog lg FindTagById] st;
                  (failed, st2) = EXIFenumerateIndex lg index st1;
                  st3 = (if failed then emit [EvLog lg EnumeratingIndex] st2 else st2)
              in (Inl FindEXIFTag, st3))
         | Some tagResults \<Rightarrow>
             (case tagResults of
                [TagEntry None] \<Rightarrow> (Inl GettingTagValue, st)
              | [TagEntry (Some v)] \<Rightarrow> (Inr v, st)
              | _ \<Rightarrow> (Inl (WrongNumberOfTagResults (length tagResults)), st)))"

definition MP4getMetadata :: "env \<Rightarrow> path \<Rightarrow> state \<Rightarrow> (mp4_error + payload list) \<times> state" where
  "MP4getMetadata ev p st =
     (let st1 = emit [EvOpen p] st in
      case fs_open (fs st1) p of
        Inl e \<Rightarrow> (Inl (OpenFile e), st1)
      | Inr n \<Rightarrow>
          (case read_all n of
             Inl e \<Rightarrow> (Inl ExtractBox, st1)
           | Inr bytes \<Rightarrow>
               (case mp4Extract ev bytes of
                  None \<Rightarrow> (Inl ExtractBox, st1)
                | Some boxes \<Rightarrow> (Inr boxes, st1))))"

section \<open>The program\<close>

definition fileDateStubFmt :: string where
  "fileDateStubFmt = ''/2006/01-02-15:04:05-''"

definition targetDirFmt :: string where
  "targetDirFmt = ''/2006''"

text \<open>
  The two assignments that end both branches of the \<^verbatim>\<open>switch\<close> (lines 132, 133 and
  152, 153), as functions of the variable \<^verbatim>\<open>target\<close>, the time \<^verbatim>\<open>when\<close> and the
  source path.
\<close>

definition targetDirOf :: "string \<Rightarrow> gotime \<Rightarrow> string" where
  "targetDirOf target when = target @ Format when targetDirFmt"

definition targetPathOf :: "string \<Rightarrow> gotime \<Rightarrow> path \<Rightarrow> string" where
  "targetPathOf target when source = target @ Format when fileDateStubFmt @ Base source"

text \<open>
  The creation time of a video (lines 148 to 151): the 32-bit field of the movie header
  counts seconds from the first day of 1904, in UTC.
\<close>

definition mp4When :: "location \<Rightarrow> Mvhd \<Rightarrow> gotime" where
  "mp4When local m =
     In (Add (DateUTC 1904 1 1 0 0 0) (Second_ns * ucast (CreationTimeV0 m))) local"

text \<open>
  The \<^verbatim>\<open>switch\<close> of lines 112 to 157, up to the time it finds: each \<open>Inl\<close> is a call
  of \<^verbatim>\<open>errorFatal\<close> with that message.
\<close>

definition creationTime :: "env \<Rightarrow> sink \<Rightarrow> path \<Rightarrow> state \<Rightarrow> (fatal + gotime) \<times> state" where
  "creationTime ev lg source st =
     (case kindOf source of
        Image \<Rightarrow>
          (case EXIFgetIndex ev source st of
             (Inl e, st1) \<Rightarrow> (Inl (GetEXIFIndex e), st1)
           | (Inr index, st1) \<Rightarrow>
               (case EXIFgetValue lg index tagIDDateTime st1 of
                  (Inl e, st2) \<Rightarrow> (Inl (GetTagValue e), st2)
                | (Inr whenValue, st2) \<Rightarrow>
                    (case whenValue of
                       OtherValue \<Rightarrow> (Inl DateTimeNotString, st2)
                     | AsciiValue whenStr \<Rightarrow>
                         (case Parse ''2006:01:02 15:04:05'' whenStr of
                            None \<Rightarrow> (Inl ParseTime, st2)
                          | Some when \<Rightarrow> (Inr when, st2)))))
      | Video \<Rightarrow>
          (case MP4getMetadata ev source st of
             (Inl e, st1) \<Rightarrow> (Inl (GetMP4Metadata e), st1)
           | (Inr metadata, st1) \<Rightarrow>
               (case metadata of
                  [MvhdPayload m] \<Rightarrow> (Inr (mp4When (localTimeZone ev) m), st1)
                | [OtherPayload] \<Rightarrow> (Inl ConvertPayload, st1)
                | _ \<Rightarrow> (Inl (WrongNumberOfMetadata (length metadata)), st1)))
      | Unsupported ext \<Rightarrow> (Inl (UnrecognizedExtension ext), st))"

text \<open>
  \<^verbatim>\<open>errorFatal\<close> (lines 229 to 244) shows a dialog box and logs at the fatal level,
  which ends the process: nothing of \<^verbatim>\<open>main\<close> runs after it, the deferred calls
  included.
\<close>

datatype outcome = MissingFlags | LogFileFailed | Fatal fatal | Done

definition errorFatal :: "sink \<Rightarrow> fatal \<Rightarrow> state \<Rightarrow> outcome \<times> state" where
  "errorFatal lg f st = (Fatal f, emit [EvDialog ''Fatal Error'', EvLog lg (FatalEntry f)] st)"

record args =
  console :: bool
  logFile :: path
  source :: path
  target :: path

text \<open>
  \<^verbatim>\<open>main\<close> from line 94 to line 163, with the logger in place: the target directory and
  the target path, or the message \<^verbatim>\<open>errorFatal\<close> is called with.
\<close>

definition plan ::
    "env \<Rightarrow> sink \<Rightarrow> path \<Rightarrow> string \<Rightarrow> state \<Rightarrow> (fatal + string \<times> string) \<times> state" where
  "plan ev lg src tgt0 st0 =
     (let tgt = TrimSuffix tgt0 ''/'';
          st = emit [EvLog lg Starting] st0
      in case creationTime ev lg src st of
           (Inl f, st1) \<Rightarrow> (Inl f, st1)
         | (Inr when, st1) \<Rightarrow>
             (let targetDir = targetDirOf tgt when;
                  targetPath = targetPathOf tgt when src
              in if targetDir = [] then (Inl NoTargetDir, st1)
                 else if targetPath = [] then (Inl NoTargetPath, st1)
                 else (Inr (targetDir, targetPath), st1)))"

text \<open>
  The rest of \<^verbatim>\<open>main\<close> (lines 165 to 174) and the deferred log line of line 100.
\<close>

definition archive :: "env \<Rightarrow> sink \<Rightarrow> path \<Rightarrow> string \<Rightarrow> state \<Rightarrow> outcome \<times> state" where
  "archive ev lg src tgt0 st0 =
     (case plan ev lg src tgt0 st0 of
        (Inl f, st1) \<Rightarrow> errorFatal lg f st1
      | (Inr (targetDir, targetPath), st1) \<Rightarrow>
          (case checkTargetDir targetDir st1 of
             (Some e, st2) \<Rightarrow> errorFatal lg (CheckTargetDir e) st2
           | (None, st2) \<Rightarrow>
               (case copySourceToTarget lg src targetPath st2 of
                  (Some e, st3) \<Rightarrow> errorFatal lg (CopySource e) st3
                | (None, st3) \<Rightarrow> (Done, emit [EvLog lg FinishedEntry] st3))))"

text \<open>
  \<^verbatim>\<open>main\<close> (lines 60 to 174), from the parsed flags. Without \<^verbatim>\<open>-console\<close> the log
  file is opened, and created when it is not there, before anything else is looked at.
\<close>

definition main :: "env \<Rightarrow> args \<Rightarrow> state \<Rightarrow> outcome \<times> state" where
  "main ev a st =
     (if source a = [] \<or> target a = [] then
        (MissingFlags, emit [EvDialog ''Error parsing command line flags''] st)
      else if console a then archive ev Console (source a) (target a) st
      else
        (let st1 = emit [EvOpenLog (logFile a)] st in
         if \<not> openLogFile ev (logFile a) then
           (LogFileFailed, emit [EvDialog ''Log File Creation''] st1)
         else archive ev (LogFile (logFile a)) (source a) (target a)
                (emit [EvLog (LogFile (logFile a)) Separator] st1)))"

section \<open>The words of the specification\<close>

text \<open>
  The error taxonomy of the specification, for the messages of \<^verbatim>\<open>errorFatal\<close>. The two
  checks of lines 159 to 163 have no place in it.
\<close>

datatype failure_kind =
    ExtractionFailure | UnsupportedKind | DirectoryFailure
  | CompareFailure | ConflictFailure | CopyFailure

definition failure_kind_of :: "fatal \<Rightarrow> failure_kind option" where
  "failure_kind_of f =
     (case f of
        GetEXIFIndex e \<Rightarrow> Some ExtractionFailure
      | GetTagValue e \<Rightarrow> Some ExtractionFailure
      | DateTimeNotString \<Rightarrow> Some ExtractionFailure
      | ParseTime \<Rightarrow> Some ExtractionFailure
      | GetMP4Metadata e \<Rightarrow> Some ExtractionFailure
      | WrongNumberOfMetadata n \<Rightarrow> Some ExtractionFailure
      | ConvertPayload \<Rightarrow> Some ExtractionFailure
      | UnrecognizedExtension ext \<Rightarrow> Some UnsupportedKind
      | NoTargetDir \<Rightarrow> None
      | NoTargetPath \<Rightarrow> None
      | CheckTargetDir e \<Rightarrow> Some DirectoryFailure
      | CopySource (CompareFiles e) \<Rightarrow> Some CompareFailure
      | CopySource NotIdentical \<Rightarrow> Some ConflictFailure
      | CopySource (CopyFileError e) \<Rightarrow> Some CopyFailure
      | CopySource (StatTargetFile e) \<Rightarrow> Some CopyFailure)"

text \<open>
  An event that reaches the file system: every one but a dialog box and a line logged
  to the console. The ones that change an entry at a path: creating a directory,
  creating or truncating a file, and writing into it.
\<close>

definition touches_fs :: "event \<Rightarrow> bool" where
  "touches_fs e = (case e of EvDialog t \<Rightarrow> False | EvLog Console l \<Rightarrow> False | _ \<Rightarrow> True)"

definition changes_fs :: "event \<Rightarrow> bool" where
  "changes_fs e = (case e of EvMkdir p \<Rightarrow> True | EvCreate p \<Rightarrow> True | EvWrite p \<Rightarrow> True
                   | _ \<Rightarrow> False)"

text \<open>
  The digits the specification writes as year, month, day, hour, minute and second.
\<close>

definition two_digits :: "int \<Rightarrow> string" where
  "two_digits n = [digit (nat (n div 10)), digit (nat (n mod 10))]"

definition four_digits :: "int \<Rightarrow> string" where
  "four_digits n =
     [digit (nat (n div 1000)), digit (nat (n div 100 mod 10)),
      digit (nat (n div 10 mod 10)), digit (nat (n mod 10))]"

text \<open>A calendar date and time of day, with a year of four digits.\<close>

definition valid_civil :: "int \<Rightarrow> int \<Rightarrow> int \<Rightarrow> int \<Rightarrow> int \<Rightarrow> int \<Rightarrow> bool" where
  "valid_civil y mo d h mi s =
     (0 \<le> y \<and> y \<le> 9999 \<and> 1 \<le> mo \<and> mo \<le> 12 \<and> 1 \<le> d \<and> d \<le> daysIn mo y \<and>
      0 \<le> h \<and> h < 24 \<and> 0 \<le> mi \<and> mi < 60 \<and> 0 \<le> s \<and> s < 60)"

text \<open>
  The events of \<^verbatim>\<open>checkTargetDir\<close> and \<^verbatim>\<open>copySourceToTarget\<close>: no other part of the
  program calls \<^verbatim>\<open>os.Stat\<close>, \<^verbatim>\<open>os.Mkdir\<close>, \<^verbatim>\<open>os.Create\<close> or \<^verbatim>\<open>io.Copy\<close>.
\<close>

definition placement_event :: "event \<Rightarrow> bool" where
  "placement_event e =
     (case e of EvStat p \<Rightarrow> True | EvMkdir p \<Rightarrow> True | EvCreate p \<Rightarrow> True | EvWrite p \<Rightarrow> True
      | _ \<Rightarrow> False)"

text \<open>
  Metadata without the creation time: tag \<^verbatim>\<open>0x132\<close> is neither in the root IFD nor in
  \<^verbatim>\<open>IFD/Exif\<close>.
\<close>

definition lacks_date_time :: "IfdIndex \<Rightarrow> bool" where
  "lacks_date_time index =
     (RootIfd index tagIDDateTime = None \<and>
      (case Lookup index ''IFD/Exif'' of None \<Rightarrow> True | Some i \<Rightarrow> i tagIDDateTime = None))"

text \<open>The timestamp as the specification has it: the wall-clock date and time.\<close>

definition civil :: "gotime \<Rightarrow> int \<times> int \<times> int \<times> int \<times> int \<times> int" where
  "civil t = (Year t, Month t, Day t, Hour t, Minute t, Second t)"

section \<open>Example inputs\<close>

text \<open>
  A memory card with two pictures and two videos, an archive with its root directory
  only, and the decoders' answers: the first picture carries the date and time
  \<^verbatim>\<open>2023:06:15 14:30:05\<close> in tag \<^verbatim>\<open>0x132\<close>, the second one no such tag; the first
  video has one movie header, created 3786912345 seconds after the start of 1904, the
  second one none. The machine is eight hours west of UTC.
\<close>

definition dated_index :: IfdIndex where
  "dated_index =
     \<lparr>RootIfd = (\<lambda>t. if t = tagIDDateTime
                       then Some [TagEntry (Some (AsciiValue ''2023:06:15 14:30:05''))]
                       else None),
      Lookup = (\<lambda>n. None), TagPaths = [''IFD/DateTime''], EnumerateFails = False\<rparr>"

definition undated_index :: IfdIndex where
  "undated_index =
     \<lparr>RootIfd = (\<lambda>t. None), Lookup = (\<lambda>n. None), TagPaths = [''IFD/Make''],
      EnumerateFails = False\<rparr>"

definition card_mvhd :: Mvhd where
  "card_mvhd = \<lparr>Version = 0, CreationTimeV0 = 3786912345, CreationTimeV1 = 0\<rparr>"

definition pacific :: location where
  "pacific = Location (- 28800) []"

definition card_env :: env where
  "card_env =
     \<lparr>exifCollect = (\<lambda>b. if b = ''undated'' then Inr undated_index else Inr dated_index),
      mp4Extract = (\<lambda>b. if b = ''headless'' then Some [] else Some [MvhdPayload card_mvhd]),
      localTimeZone = pacific,
      openLogFile = (\<lambda>p. True)\<rparr>"

definition card_fs :: filesystem where
  "card_fs =
     [''/archive'' \<mapsto> Dir,
      ''/card'' \<mapsto> Dir,
      ''/card/IMG_001.JPG'' \<mapsto> File ''picture'',
      ''/card/IMG_002.JPG'' \<mapsto> File ''undated'',
      ''/card/MOV_003.MP4'' \<mapsto> File ''movie'',
      ''/card/MOV_004.MP4'' \<mapsto> File ''headless'']"

definition card_state :: state where
  "card_state = \<lparr>fs = card_fs, trace = []\<rparr>"

text \<open>The same card, and an archive that already holds another file under the name
  the first picture is given.\<close>

definition taken_state :: state where
  "taken_state =
     \<lparr>fs = card_fs(''/archive/2023'' \<mapsto> Dir,
                    ''/archive/2023/06-15-14:30:05-IMG_001.JPG'' \<mapsto> File ''another''),
      trace = []\<rparr>"

text \<open>The same card, and an archive with the directory of 2023 and nothing in it.\<close>

definition ready_state :: state where
  "ready_state = \<lparr>fs = card_fs(''/archive/2023'' \<mapsto> Dir), trace = []\<rparr>"


definition png_args :: args where
  "png_args =
     \<lparr>console = False, logFile = ''/tmp/gardepro.log'', source = ''/card/IMG_005.png'',
      target = ''/archive''\<rparr>"

definition undated_args :: args where
  "undated_args =
     \<lparr>console = False, logFile = ''/tmp/gardepro.log'', source = ''/card/IMG_002.JPG'',
      target = ''/archive''\<rparr>"

definition headless_args :: args where
  "headless_args =
     \<lparr>console = True, logFile = ''/tmp/gardepro.log'', source = ''/card/MOV_004.MP4'',
      target = ''/archive''\<rparr>"

text \<open>14:30:05 on June 15, 2023 on the clock of the machine, eight hours west of UTC.\<close>

definition afternoon_pacific :: gotime where
  "afternoon_pacific = \<lparr>unixSec = 1686868205, loc = pacific\<rparr>"

section \<open>Properties\<close>

subsection \<open>Strings\<close>

lemma lower_char_other:
  assumes "\<not> (65 \<le> (of_char x :: nat) \<and> (of_char x :: nat) \<le> 90)"
      and "\<not> (97 \<le> (of_char x :: nat) \<and> (of_char x :: nat) \<le> 122)"
  shows "lower_char c = x \<longleftrightarrow> c = x"
proof (cases "65 \<le> (of_char c :: nat) \<and> (of_char c :: nat) \<le> 90")
  case True
  then have lc: "lower_char c = char_of ((of_char c :: nat) + 32)"
    by (simp add: lower_char_def)
  have "(of_char (lower_char c) :: nat) = ((of_char c :: nat) + 32) mod 256"
    unfolding lc by (rule of_char_of)
  with True have "97 \<le> (of_char (lower_char c) :: nat) \<and> (of_char (lower_char c) :: nat) \<le> 122"
    by simp
  with assms True show ?thesis by auto
next
  case False
  then show ?thesis by (auto simp add: lower_char_def Let_def)
qed

lemma lower_char_dot: "lower_char c = CHR ''.'' \<longleftrightarrow> c = CHR ''.''"
  by (rule lower_char_other) simp_all

lemma lower_char_slash: "lower_char c = CHR ''/'' \<longleftrightarrow> c = CHR ''/''"
  by (rule lower_char_other) simp_all

lemma lower_chars:
  "lower_char CHR ''J'' = CHR ''j''" "lower_char CHR ''P'' = CHR ''p''"
  "lower_char CHR ''G'' = CHR ''g''" "lower_char CHR ''E'' = CHR ''e''"
  "lower_char CHR ''M'' = CHR ''m''"
  "lower_char CHR ''j'' = CHR ''j''" "lower_char CHR ''p'' = CHR ''p''"
  "lower_char CHR ''g'' = CHR ''g''" "lower_char CHR ''e'' = CHR ''e''"
  "lower_char CHR ''m'' = CHR ''m''" "lower_char CHR ''4'' = CHR ''4''"
  "lower_char CHR ''.'' = CHR ''.''" "lower_char CHR ''n'' = CHR ''n''"
  by code_simp+

lemma TrimSuffix_append: "TrimSuffix (r @ ''/'') ''/'' = r"
  by (simp add: TrimSuffix_def HasSuffix_def)

lemma TrimSuffix_none: "\<not> HasSuffix r ''/'' \<Longrightarrow> TrimSuffix r ''/'' = r"
  by (simp add: TrimSuffix_def)

lemma ext_scan_lower:
  "ext_scan (map lower_char cs) (map lower_char seen) = map lower_char (ext_scan cs seen)"
proof (induction cs arbitrary: seen)
  case Nil
  show ?case by simp
next
  case (Cons a cs)
  from Cons.IH [of "a # seen"] show ?case
    by (simp add: lower_char_dot lower_char_slash)
qed

lemma Ext_ToLower: "Ext (ToLower p) = ToLower (Ext p)"
  using ext_scan_lower [of "rev p" "[]"] by (simp add: Ext_def ToLower_def rev_map)

subsection \<open>Placing\<close>

lemma emit_simps [simp]: "fs (emit es st) = fs st" "trace (emit es st) = trace st @ es"
  by (simp_all add: emit_def)

lemma copy_first:
  assumes "fs st src = Some (File cs)" and "fs st tgt = None"
      and "fs st (parent_dir tgt) = Some Dir"
  shows "copySourceToTarget lg src tgt st =
           (None, st\<lparr>fs := (fs st)(tgt \<mapsto> File cs),
                      trace := trace st @ [EvStat tgt, EvOpen src, EvCreate tgt, EvWrite tgt,
                                           EvLog lg CopiedFile]\<rparr>)"
  using assms
  by (simp add: copySourceToTarget_def copyFile_def fs_open_def fs_stat_def fs_create_def
        fs_new_entry_def read_all_def emit_def Let_def)

lemma copy_again:
  assumes "fs st src = Some (File cs)" and "fs st tgt = Some (File cs)"
  shows "copySourceToTarget lg src tgt st =
           (None, st\<lparr>trace := trace st @ [EvStat tgt, EvOpen src, EvOpen tgt,
                                           EvLog lg SkippingIdentical]\<rparr>)"
  using assms
  by (simp add: copySourceToTarget_def CompareFile_def fs_open_def fs_stat_def
        read_all_def emit_def Let_def)

lemma copy_conflict:
  assumes "fs st src = Some (File cs)" and "fs st tgt = Some (File ct)" and "cs \<noteq> ct"
  shows "copySourceToTarget lg src tgt st =
           (Some NotIdentical, st\<lparr>trace := trace st @ [EvStat tgt, EvOpen src, EvOpen tgt]\<rparr>)"
  using assms
  by (simp add: copySourceToTarget_def CompareFile_def fs_open_def fs_stat_def
        read_all_def emit_def Let_def)

lemma copy_keeps_existing:
  assumes "fs st tgt \<noteq> None"
  shows "fs (snd (copySourceToTarget lg src tgt st)) = fs st"
    and "filter changes_fs (trace (snd (copySourceToTarget lg src tgt st)))
           = filter changes_fs (trace st)"
  using assms
  by (auto simp: copySourceToTarget_def CompareFile_def fs_open_def fs_stat_def read_all_def
        changes_fs_def emit_def Let_def split: sum.splits node.splits prod.splits)

text \<open>
  Claim C2. When the destination exists, \<^verbatim>\<open>copySourceToTarget\<close> leaves the file system
  as it is and does nothing that changes it, whatever it answers; and when source and
  destination are files with different bytes it answers with the error
  ``pre-existing file not identical'', after one \<^verbatim>\<open>stat\<close> and the two reads of the
  comparison. That error is the conflict of the specification's taxonomy, and \<^verbatim>\<open>main\<close>
  ends on it with \<^verbatim>\<open>errorFatal\<close>.
\<close>

theorem C2_conflict_leaves_destination:
  "(fs st tgt \<noteq> None \<longrightarrow>
      fs (snd (copySourceToTarget lg src tgt st)) = fs st \<and>
      filter changes_fs (trace (snd (copySourceToTarget lg src tgt st)))
        = filter changes_fs (trace st)) \<and>
   (fs st src = Some (File cs) \<and> fs st tgt = Some (File ct) \<and> cs \<noteq> ct \<longrightarrow>
      copySourceToTarget lg src tgt st =
        (Some NotIdentical, st\<lparr>trace := trace st @ [EvStat tgt, EvOpen src, EvOpen tgt]\<rparr>) \<and>
      fs (snd (copySourceToTarget lg src tgt st)) tgt = Some (File ct) \<and>
      failure_kind_of (CopySource NotIdentical) = Some ConflictFailure \<and>
      (plan ev lg src root st0 = (Inr (dir, tgt), st1) \<and> checkTargetDir dir st1 = (None, st) \<longrightarrow>
         archive ev lg src root st0 =
           errorFatal lg (CopySource NotIdentical)
             (st\<lparr>trace := trace st @ [EvStat tgt, EvOpen src, EvOpen tgt]\<rparr>)))"
  by (auto simp: copy_keeps_existing copy_conflict failure_kind_of_def archive_def)

theorem C2_conflict_leaves_destination_witness:
  "fs taken_state ''/card/IMG_001.JPG'' = Some (File ''picture'') \<and>
   fs taken_state ''/archive/2023/06-15-14:30:05-IMG_001.JPG'' = Some (File ''another'') \<and>
   ''picture'' \<noteq> ''another'' \<and>
   fst (copySourceToTarget Console ''/card/IMG_001.JPG''
          ''/archive/2023/06-15-14:30:05-IMG_001.JPG'' taken_state) = Some NotIdentical \<and>
   fs (snd (copySourceToTarget Console ''/card/IMG_001.JPG''
          ''/archive/2023/06-15-14:30:05-IMG_001.JPG'' taken_state))
      ''/archive/2023/06-15-14:30:05-IMG_001.JPG'' = Some (File ''another'')"
  using C2_conflict_leaves_destination
    [of taken_state "''/archive/2023/06-15-14:30:05-IMG_001.JPG''" Console
        "''/card/IMG_001.JPG''" "''picture''" "''another''"]
  by (simp add: taken_state_def card_fs_def)

text \<open>
  Claim C3. With the source a file, the destination absent and its directory in place,
  the first \<^verbatim>\<open>copySourceToTarget\<close> creates the destination with the bytes of the source
  and logs ``Copied file''; the second one, run on the state the first one left, reads
  both files, logs ``Skipping pre-existing identical file'' and leaves the file system as
  it found it. Both return \<^verbatim>\<open>nil\<close>. Of all the events of the two runs, the only ones
  that change the file system are the creation of the destination and the one write
  into it, in the first run.
\<close>

theorem C3_place_twice:
  assumes "fs st src = Some (File cs)" and "fs st tgt = None"
      and "fs st (parent_dir tgt) = Some Dir"
  shows "copySourceToTarget lg src tgt st =
           (None, st\<lparr>fs := (fs st)(tgt \<mapsto> File cs),
                      trace := trace st @ [EvStat tgt, EvOpen src, EvCreate tgt, EvWrite tgt,
                                           EvLog lg CopiedFile]\<rparr>) \<and>
         copySourceToTarget lg src tgt (snd (copySourceToTarget lg src tgt st)) =
           (None, st\<lparr>fs := (fs st)(tgt \<mapsto> File cs),
                      trace := trace st @ [EvStat tgt, EvOpen src, EvCreate tgt, EvWrite tgt,
                                           EvLog lg CopiedFile]
                                 @ [EvStat tgt, EvOpen src, EvOpen tgt,
                                    EvLog lg SkippingIdentical]\<rparr>) \<and>
         filter changes_fs
           (drop (length (trace st))
              (trace (snd (copySourceToTarget lg src tgt
                             (snd (copySourceToTarget lg src tgt st))))))
           = [EvCreate tgt, EvWrite tgt]"
proof -
  let ?st1 = "st\<lparr>fs := (fs st)(tgt \<mapsto> File cs),
                  trace := trace st @ [EvStat tgt, EvOpen src, EvCreate tgt, EvWrite tgt,
                                       EvLog lg CopiedFile]\<rparr>"
  have first: "copySourceToTarget lg src tgt st = (None, ?st1)"
    using assms by (rule copy_first)
  from assms have ne: "src \<noteq> tgt" by auto
  have second: "copySourceToTarget lg src tgt ?st1 =
      (None, ?st1\<lparr>trace := trace ?st1 @ [EvStat tgt, EvOpen src, EvOpen tgt,
                                           EvLog lg SkippingIdentical]\<rparr>)"
    by (rule copy_again [where cs = cs]) (use assms ne in simp_all)
  show ?thesis
    by (simp add: first second changes_fs_def)
qed

theorem C3_place_twice_witness:
  "fs ready_state ''/card/IMG_001.JPG'' = Some (File ''picture'') \<and>
   fs ready_state ''/archive/2023/06-15-14:30:05-IMG_001.JPG'' = None \<and>
   fs ready_state (parent_dir ''/archive/2023/06-15-14:30:05-IMG_001.JPG'') = Some Dir \<and>
   fst (copySourceToTarget Console ''/card/IMG_001.JPG''
          ''/archive/2023/06-15-14:30:05-IMG_001.JPG'' ready_state) = None \<and>
   trace (snd (copySourceToTarget Console ''/card/IMG_001.JPG''
                 ''/archive/2023/06-15-14:30:05-IMG_001.JPG''
                 (snd (copySourceToTarget Console ''/card/IMG_001.JPG''
                         ''/archive/2023/06-15-14:30:05-IMG_001.JPG'' ready_state)))) =
     [EvStat ''/archive/2023/06-15-14:30:05-IMG_001.JPG'', EvOpen ''/card/IMG_001.JPG'',
      EvCreate ''/archive/2023/06-15-14:30:05-IMG_001.JPG'',
      EvWrite ''/archive/2023/06-15-14:30:05-IMG_001.JPG'', EvLog Console CopiedFile,
      EvStat ''/archive/2023/06-15-14:30:05-IMG_001.JPG'', EvOpen ''/card/IMG_001.JPG'',
      EvOpen ''/archive/2023/06-15-14:30:05-IMG_001.JPG'', EvLog Console SkippingIdentical]"
proof -
  have h1: "fs ready_state ''/card/IMG_001.JPG'' = Some (File ''picture'')"
    and h2: "fs ready_state ''/archive/2023/06-15-14:30:05-IMG_001.JPG'' = None"
    and h3: "fs ready_state (parent_dir ''/archive/2023/06-15-14:30:05-IMG_001.JPG'') = Some Dir"
    by (simp_all add: ready_state_def card_fs_def parent_dir_def)
  note twice = C3_place_twice [OF h1 h2 h3, of Console]
  note run1 = twice [THEN conjunct1]
  note run2 = twice [THEN conjunct2, THEN conjunct1]
  have first:
    "fst (copySourceToTarget Console ''/card/IMG_001.JPG''
            ''/archive/2023/06-15-14:30:05-IMG_001.JPG'' ready_state) = None"
    by (subst run1) simp
  have second:
    "trace (snd (copySourceToTarget Console ''/card/IMG_001.JPG''
                   ''/archive/2023/06-15-14:30:05-IMG_001.JPG''
                   (snd (copySourceToTarget Console ''/card/IMG_001.JPG''
                           ''/archive/2023/06-15-14:30:05-IMG_001.JPG'' ready_state)))) =
       trace ready_state @
       [EvStat ''/archive/2023/06-15-14:30:05-IMG_001.JPG'', EvOpen ''/card/IMG_001.JPG'',
        EvCreate ''/archive/2023/06-15-14:30:05-IMG_001.JPG'',
        EvWrite ''/archive/2023/06-15-14:30:05-IMG_001.JPG'', EvLog Console CopiedFile,
        EvStat ''/archive/2023/06-15-14:30:05-IMG_001.JPG'', EvOpen ''/card/IMG_001.JPG'',
        EvOpen ''/archive/2023/06-15-14:30:05-IMG_001.JPG'', EvLog Console SkippingIdentical]"
    by (subst run2) simp
  have "trace ready_state = []" by (simp add: ready_state_def)
  with h1 h2 h3 first second show ?thesis by simp
qed




subsection \<open>Extraction\<close>

lemma EXIFgetIndex_frame:
  "fs (snd (EXIFgetIndex ev p st)) = fs st \<and>
   filter placement_event (trace (snd (EXIFgetIndex ev p st))) = filter placement_event (trace st)"
  by (simp add: EXIFgetIndex_def Let_def placement_event_def split: sum.splits)

lemma EXIFgetValue_frame:
  "fs (snd (EXIFgetValue lg index t st)) = fs st \<and>
   filter placement_event (trace (snd (EXIFgetValue lg index t st))) = filter placement_event (trace st)"
  by (simp add: EXIFgetValue_def EXIFenumerateIndex_def Let_def placement_event_def filter_map o_def
      split: option.splits list.splits tag_entry.splits)

lemma MP4getMetadata_frame:
  "fs (snd (MP4getMetadata ev p st)) = fs st \<and>
   filter placement_event (trace (snd (MP4getMetadata ev p st))) = filter placement_event (trace st)"
  by (simp add: MP4getMetadata_def Let_def placement_event_def split: sum.splits option.splits)

lemma creationTime_frame:
  "fs (snd (creationTime ev lg src st)) = fs st \<and>
   filter placement_event (trace (snd (creationTime ev lg src st))) = filter placement_event (trace st)"
proof (cases "kindOf src")
  case Image
  obtain r1 s1 where a: "EXIFgetIndex ev src st = (r1, s1)" by (cases "EXIFgetIndex ev src st")
  from EXIFgetIndex_frame [of ev src st] a
  have f1: "fs s1 = fs st" "filter placement_event (trace s1) = filter placement_event (trace st)"
    by simp_all
  show ?thesis
  proof (cases r1)
    case (Inl e)
    with Image a f1 show ?thesis by (simp add: creationTime_def)
  next
    case (Inr index)
    obtain r2 s2 where b: "EXIFgetValue lg index tagIDDateTime s1 = (r2, s2)"
      by (cases "EXIFgetValue lg index tagIDDateTime s1")
    from EXIFgetValue_frame [of lg index tagIDDateTime s1] b f1
    have f2: "fs s2 = fs st" "filter placement_event (trace s2) = filter placement_event (trace st)"
      by simp_all
    from Image a Inr b f2 show ?thesis
      by (simp add: creationTime_def split: sum.splits exif_value.splits option.splits)
  qed
next
  case Video
  obtain r1 s1 where a: "MP4getMetadata ev src st = (r1, s1)" by (cases "MP4getMetadata ev src st")
  from MP4getMetadata_frame [of ev src st] a
  have f1: "fs s1 = fs st" "filter placement_event (trace s1) = filter placement_event (trace st)"
    by simp_all
  from Video a f1 show ?thesis
    by (simp add: creationTime_def split: sum.splits list.splits payload.splits)
next
  case (Unsupported ext)
  then show ?thesis by (simp add: creationTime_def)
qed

lemma plan_frame:
  "fs (snd (plan ev lg src root st)) = fs st \<and>
   filter placement_event (trace (snd (plan ev lg src root st))) = filter placement_event (trace st)"
proof -
  obtain r1 s1 where a: "creationTime ev lg src (emit [EvLog lg Starting] st) = (r1, s1)"
    by (cases "creationTime ev lg src (emit [EvLog lg Starting] st)")
  from creationTime_frame [of ev lg src "emit [EvLog lg Starting] st"] a
  have "fs s1 = fs st" "filter placement_event (trace s1) = filter placement_event (trace st)"
    by (simp_all add: placement_event_def)
  with a show ?thesis
    by (simp add: plan_def Let_def split: sum.splits)
qed

lemma plan_Inl:
  "fst (plan ev lg src root st) = Inl f \<Longrightarrow>
   archive ev lg src root st = errorFatal lg f (snd (plan ev lg src root st))"
  by (cases "plan ev lg src root st") (simp add: archive_def)

lemma plan_Inr:
  assumes "plan ev lg src root st = (Inr (d, p), st')"
  shows "\<exists>w. creationTime ev lg src (emit [EvLog lg Starting] st) = (Inr w, st') \<and>
             d = targetDirOf (TrimSuffix root ''/'') w \<and>
             p = targetPathOf (TrimSuffix root ''/'') w src"
  using assms
  by (auto simp: plan_def Let_def split: prod.splits sum.splits if_splits)

lemma archive_extraction:
  assumes "fst (archive ev lg src root st) = Fatal f"
      and "failure_kind_of f = Some ExtractionFailure \<or> failure_kind_of f = Some UnsupportedKind"
  shows "fst (plan ev lg src root st) = Inl f"
proof (cases "plan ev lg src root st")
  case (Pair r s1)
  show ?thesis
  proof (cases r)
    case (Inl g)
    with Pair assms show ?thesis by (simp add: archive_def errorFatal_def)
  next
    case (Inr dp)
    with Pair assms show ?thesis
      by (auto simp: archive_def errorFatal_def failure_kind_of_def
          split: prod.splits option.splits place_error.splits)
  qed
qed

lemma errorFatal_frame:
  "fst (errorFatal lg f st) = Fatal f \<and> fs (snd (errorFatal lg f st)) = fs st \<and>
   filter placement_event (trace (snd (errorFatal lg f st))) = filter placement_event (trace st)"
  by (simp add: errorFatal_def placement_event_def)

lemma archive_aborts:
  assumes "fst (plan ev lg src root st) = Inl f"
  shows "fst (archive ev lg src root st) = Fatal f \<and>
         fs (snd (archive ev lg src root st)) = fs st \<and>
         filter placement_event (trace (snd (archive ev lg src root st)))
           = filter placement_event (trace st)"
  using plan_Inl [OF assms] errorFatal_frame [of lg f "snd (plan ev lg src root st)"]
    plan_frame [of ev lg src root st]
  by simp

lemma main_console: "source a \<noteq> [] \<Longrightarrow> target a \<noteq> [] \<Longrightarrow> console a \<Longrightarrow>
   main ev a st = archive ev Console (source a) (target a) st"
  by (simp add: main_def)

lemma main_logfile: "source a \<noteq> [] \<Longrightarrow> target a \<noteq> [] \<Longrightarrow> \<not> console a \<Longrightarrow> openLogFile ev (logFile a) \<Longrightarrow>
   main ev a st = archive ev (LogFile (logFile a)) (source a) (target a)
      (emit [EvOpenLog (logFile a), EvLog (LogFile (logFile a)) Separator] st)"
  by (simp add: main_def Let_def emit_def)

lemma main_aborts:
  assumes "source a \<noteq> []" "target a \<noteq> []" "console a \<or> openLogFile ev (logFile a)"
   and "\<And>lg st'. fs st' = fs st \<Longrightarrow> fst (plan ev lg (source a) (target a) st') = Inl f"
  shows "fst (main ev a st) = Fatal f \<and>
         fs (snd (main ev a st)) = fs st \<and>
         filter placement_event (trace (snd (main ev a st)))
           = filter placement_event (trace st)"
proof (cases "console a")
  case True
  with assms(1,2) have "main ev a st = archive ev Console (source a) (target a) st"
    by (rule_tac main_console)
  with archive_aborts [OF assms(4) [of st Console]] show ?thesis by simp
next
  case False
  let ?st = "emit [EvOpenLog (logFile a), EvLog (LogFile (logFile a)) Separator] st"
  from False assms have "main ev a st = archive ev (LogFile (logFile a)) (source a) (target a) ?st"
    by (simp add: main_logfile)
  with archive_aborts [OF assms(4) [of ?st "LogFile (logFile a)"]] show ?thesis
    by (simp add: placement_event_def)
qed

lemma plan_undated:
  assumes "kindOf src = Image" "fs st src = Some (File bytes)"
     "exifCollect ev bytes = Inr index" "lacks_date_time index"
  shows "fst (plan ev lg src root st) = Inl (GetTagValue FindEXIFTag)"
  using assms
  by (simp add: plan_def creationTime_def EXIFgetIndex_def EXIFgetValue_def fs_open_def
        fs_stat_def read_all_def FindTagWithId_def lacks_date_time_def Let_def
        EXIFenumerateIndex_def split: option.splits)

lemma plan_headless:
  assumes "kindOf src = Video" "fs st src = Some (File bytes)" "mp4Extract ev bytes = Some []"
  shows "fst (plan ev lg src root st) = Inl (WrongNumberOfMetadata 0)"
  using assms
  by (simp add: plan_def creationTime_def MP4getMetadata_def fs_open_def
        fs_stat_def read_all_def Let_def)

lemma formatStd_civil: "civil t1 = civil t2 \<Longrightarrow> formatStd t1 f = formatStd t2 f"
  by (cases f) (simp_all add: civil_def formatStd_def)

lemma Format_civil: "civil t1 = civil t2 \<Longrightarrow> Format t1 layout = Format t2 layout"
proof -
  assume c: "civil t1 = civil t2"
  have "formatChunk t1 = formatChunk t2"
    by (rule ext) (simp add: formatChunk_def formatStd_civil [OF c] split: chunk.splits)
  then show ?thesis by (simp add: Format_def split: option.splits)
qed

text \<open>
  Claim C6. A picture whose metadata has no tag \<^verbatim>\<open>0x132\<close> ends \<^verbatim>\<open>main\<close> with the
  fatal message ``Get tag value'', and a video with no movie header with ``Wrong number
  of metadata results'': both are extraction failures. In both cases, and whenever
  \<^verbatim>\<open>main\<close> ends on an extraction failure, the file system is as it was and the trace has
  no event of \<^verbatim>\<open>checkTargetDir\<close> or \<^verbatim>\<open>copySourceToTarget\<close>: no \<^verbatim>\<open>stat\<close>, no
  \<^verbatim>\<open>mkdir\<close>, no file created or written.
\<close>

theorem C6_extraction_failure_aborts:
  assumes "source a \<noteq> []" and "target a \<noteq> []"
      and "console a \<or> openLogFile ev (logFile a)"
      and "fs st (source a) = Some (File bytes)"
  shows
   "(kindOf (source a) = Image \<and> exifCollect ev bytes = Inr index \<and> lacks_date_time index \<longrightarrow>
       fst (main ev a st) = Fatal (GetTagValue FindEXIFTag) \<and>
       failure_kind_of (GetTagValue FindEXIFTag) = Some ExtractionFailure \<and>
       fs (snd (main ev a st)) = fs st \<and>
       filter placement_event (trace (snd (main ev a st))) = filter placement_event (trace st)) \<and>
    (kindOf (source a) = Video \<and> mp4Extract ev bytes = Some [] \<longrightarrow>
       fst (main ev a st) = Fatal (WrongNumberOfMetadata 0) \<and>
       failure_kind_of (WrongNumberOfMetadata 0) = Some ExtractionFailure \<and>
       fs (snd (main ev a st)) = fs st \<and>
       filter placement_event (trace (snd (main ev a st))) = filter placement_event (trace st)) \<and>
    (fst (main ev a st) = Fatal f \<and> failure_kind_of f = Some ExtractionFailure \<longrightarrow>
       fs (snd (main ev a st)) = fs st \<and>
       filter placement_event (trace (snd (main ev a st))) = filter placement_event (trace st))"
proof (intro conjI impI)
  assume h: "kindOf (source a) = Image \<and> exifCollect ev bytes = Inr index \<and> lacks_date_time index"
  have "fst (main ev a st) = Fatal (GetTagValue FindEXIFTag) \<and>
         fs (snd (main ev a st)) = fs st \<and>
         filter placement_event (trace (snd (main ev a st)))
           = filter placement_event (trace st)"
    by (rule main_aborts [OF assms(1-3)])
       (rule plan_undated [where bytes = bytes and index = index], use h assms(4) in simp_all)
  then show "fst (main ev a st) = Fatal (GetTagValue FindEXIFTag)"
    "fs (snd (main ev a st)) = fs st"
    "filter placement_event (trace (snd (main ev a st))) = filter placement_event (trace st)"
    by simp_all
  show "failure_kind_of (GetTagValue FindEXIFTag) = Some ExtractionFailure"
    by (simp add: failure_kind_of_def)
next
  assume h: "kindOf (source a) = Video \<and> mp4Extract ev bytes = Some []"
  have "fst (main ev a st) = Fatal (WrongNumberOfMetadata 0) \<and>
         fs (snd (main ev a st)) = fs st \<and>
         filter placement_event (trace (snd (main ev a st)))
           = filter placement_event (trace st)"
    by (rule main_aborts [OF assms(1-3)])
       (rule plan_headless [where bytes = bytes], use h assms(4) in simp_all)
  then show "fst (main ev a st) = Fatal (WrongNumberOfMetadata 0)"
    "fs (snd (main ev a st)) = fs st"
    "filter placement_event (trace (snd (main ev a st))) = filter placement_event (trace st)"
    by simp_all
  show "failure_kind_of (WrongNumberOfMetadata 0) = Some ExtractionFailure"
    by (simp add: failure_kind_of_def)
next
  assume h: "fst (main ev a st) = Fatal f \<and> failure_kind_of f = Some ExtractionFailure"
  show "fs (snd (main ev a st)) = fs st"
    "filter placement_event (trace (snd (main ev a st))) = filter placement_event (trace st)"
  proof -
    have "fs (snd (main ev a st)) = fs st \<and>
      filter placement_event (trace (snd (main ev a st))) = filter placement_event (trace st)"
    proof (cases "console a")
      case True
      with assms have m: "main ev a st = archive ev Console (source a) (target a) st"
        by (simp add: main_console)
      with h have "fst (plan ev Console (source a) (target a) st) = Inl f"
        by (intro archive_extraction) simp_all
      from archive_aborts [OF this] m show ?thesis by simp
    next
      case False
      let ?st = "emit [EvOpenLog (logFile a), EvLog (LogFile (logFile a)) Separator] st"
      from False assms have m: "main ev a st = archive ev (LogFile (logFile a)) (source a) (target a) ?st"
        by (simp add: main_logfile)
      with h have "fst (plan ev (LogFile (logFile a)) (source a) (target a) ?st) = Inl f"
        by (intro archive_extraction) simp_all
      from archive_aborts [OF this] m show ?thesis by (simp add: placement_event_def)
    qed
    then show "fs (snd (main ev a st)) = fs st"
    "filter placement_event (trace (snd (main ev a st))) = filter placement_event (trace st)"
      by simp_all
  qed
qed

theorem C6_extraction_failure_aborts_witness:
  "source undated_args \<noteq> [] \<and> target undated_args \<noteq> [] \<and>
   (console undated_args \<or> openLogFile card_env (logFile undated_args)) \<and>
   fs card_state (source undated_args) = Some (File ''undated'') \<and>
   kindOf (source undated_args) = Image \<and>
   exifCollect card_env ''undated'' = Inr undated_index \<and> lacks_date_time undated_index \<and>
   fst (main card_env undated_args card_state) = Fatal (GetTagValue FindEXIFTag) \<and>
   fs (snd (main card_env undated_args card_state)) = fs card_state \<and>
   filter placement_event (trace (snd (main card_env undated_args card_state))) = [] \<and>
   source headless_args \<noteq> [] \<and> target headless_args \<noteq> [] \<and>
   (console headless_args \<or> openLogFile card_env (logFile headless_args)) \<and>
   fs card_state (source headless_args) = Some (File ''headless'') \<and>
   kindOf (source headless_args) = Video \<and>
   mp4Extract card_env ''headless'' = Some [] \<and>
   fst (main card_env headless_args card_state) = Fatal (WrongNumberOfMetadata 0) \<and>
   fs (snd (main card_env headless_args card_state)) = fs card_state \<and>
   filter placement_event (trace (snd (main card_env headless_args card_state))) = []"
proof -
  have a: "source undated_args \<noteq> []" "target undated_args \<noteq> []"
    "console undated_args \<or> openLogFile card_env (logFile undated_args)"
    "fs card_state (source undated_args) = Some (File ''undated'')"
    by (simp_all add: undated_args_def card_env_def card_state_def card_fs_def)
  have b: "kindOf (source undated_args) = Image"
    "exifCollect card_env ''undated'' = Inr undated_index" "lacks_date_time undated_index"
    by (simp_all add: undated_args_def kindOf_def Ext_def ToLower_def lower_chars card_env_def
          lacks_date_time_def undated_index_def)
  have c: "source headless_args \<noteq> []" "target headless_args \<noteq> []"
    "console headless_args \<or> openLogFile card_env (logFile headless_args)"
    "fs card_state (source headless_args) = Some (File ''headless'')"
    by (simp_all add: headless_args_def card_env_def card_state_def card_fs_def)
  have d: "kindOf (source headless_args) = Video"
    "mp4Extract card_env ''headless'' = Some []"
    by (simp_all add: headless_args_def kindOf_def Ext_def ToLower_def lower_chars card_env_def)
  have t: "trace card_state = []" by (simp add: card_state_def)
  from C6_extraction_failure_aborts [OF a, of undated_index "WrongNumberOfMetadata 0"] b t
  have "fst (main card_env undated_args card_state) = Fatal (GetTagValue FindEXIFTag) \<and>
   fs (snd (main card_env undated_args card_state)) = fs card_state \<and>
   filter placement_event (trace (snd (main card_env undated_args card_state))) = []"
    by simp
  moreover
  from C6_extraction_failure_aborts [OF c, of undated_index "WrongNumberOfMetadata 0"] d t
  have "fst (main card_env headless_args card_state) = Fatal (WrongNumberOfMetadata 0) \<and>
   fs (snd (main card_env headless_args card_state)) = fs card_state \<and>
   filter placement_event (trace (snd (main card_env headless_args card_state))) = []"
    by simp
  ultimately show ?thesis using a b c d by simp
qed

text \<open>
  Claim C7, as the code has it. With both flags given and the logger in place, a source
  whose lowercased extension is none of \<^verbatim>\<open>.jpg\<close>, \<^verbatim>\<open>.jpeg\<close> and \<^verbatim>\<open>.mp4\<close> ends
  \<^verbatim>\<open>main\<close> with the fatal message ``Unrecognized extension'', the unsupported kind of
  the taxonomy. Neither the source nor anything under the target is looked at: the
  trace is the start line, the dialog box and the fatal line. With \<^verbatim>\<open>-console\<close> no event
  reaches the file system; without it the log file has been opened, and created when it
  was not there, and three lines go into it.
\<close>

theorem C7_unsupported_extension:
  assumes "source a \<noteq> []" and "target a \<noteq> []"
      and "console a \<or> openLogFile ev (logFile a)"
      and "kindOf (source a) = Unsupported ext"
  shows "ext = ToLower (Ext (source a)) \<and>
         failure_kind_of (UnrecognizedExtension ext) = Some UnsupportedKind \<and>
         main ev a st =
           (Fatal (UnrecognizedExtension ext),
            st\<lparr>trace := trace st @
              (if console a then
                 [EvLog Console Starting, EvDialog ''Fatal Error'',
                  EvLog Console (FatalEntry (UnrecognizedExtension ext))]
               else
                 [EvOpenLog (logFile a), EvLog (LogFile (logFile a)) Separator,
                  EvLog (LogFile (logFile a)) Starting, EvDialog ''Fatal Error'',
                  EvLog (LogFile (logFile a)) (FatalEntry (UnrecognizedExtension ext))])\<rparr>) \<and>
         (console a \<longrightarrow>
            filter touches_fs (drop (length (trace st)) (trace (snd (main ev a st)))) = [])"
proof -
  have k: "ext = ToLower (Ext (source a))"
    using assms(4) by (auto simp: kindOf_def Let_def split: if_splits)
  have p: "archive ev lg (source a) (target a) st' =
      (Fatal (UnrecognizedExtension ext),
       st'\<lparr>trace := trace st' @ [EvLog lg Starting, EvDialog ''Fatal Error'',
                                   EvLog lg (FatalEntry (UnrecognizedExtension ext))]\<rparr>)" for lg st'
    using assms(4)
    by (simp add: archive_def plan_def creationTime_def errorFatal_def emit_def Let_def)
  have m: "main ev a st =
           (Fatal (UnrecognizedExtension ext),
            st\<lparr>trace := trace st @
              (if console a then
                 [EvLog Console Starting, EvDialog ''Fatal Error'',
                  EvLog Console (FatalEntry (UnrecognizedExtension ext))]
               else
                 [EvOpenLog (logFile a), EvLog (LogFile (logFile a)) Separator,
                  EvLog (LogFile (logFile a)) Starting, EvDialog ''Fatal Error'',
                  EvLog (LogFile (logFile a)) (FatalEntry (UnrecognizedExtension ext))])\<rparr>)"
    using assms(1-3) by (auto simp: main_def p emit_def Let_def)
  show ?thesis
    by (simp add: k [symmetric] m failure_kind_of_def touches_fs_def)
qed

theorem C7_unsupported_extension_witness:
  "source png_args \<noteq> [] \<and> target png_args \<noteq> [] \<and>
   (console png_args \<or> openLogFile card_env (logFile png_args)) \<and>
   kindOf (source png_args) = Unsupported ''.png'' \<and>
   fst (main card_env png_args card_state) = Fatal (UnrecognizedExtension ''.png'') \<and>
   fs (snd (main card_env png_args card_state)) = fs card_state"
proof -
  have a: "source png_args \<noteq> []" "target png_args \<noteq> []"
    "console png_args \<or> openLogFile card_env (logFile png_args)"
    "kindOf (source png_args) = Unsupported ''.png''"
    by (simp_all add: png_args_def card_env_def kindOf_def Ext_def ToLower_def lower_chars)
  note m = C7_unsupported_extension [OF a, of card_state, THEN conjunct2, THEN conjunct2,
      THEN conjunct1]
  have "fst (main card_env png_args card_state) = Fatal (UnrecognizedExtension ''.png'')"
    "fs (snd (main card_env png_args card_state)) = fs card_state"
    by (subst m, simp)+
  with a show ?thesis by simp
qed

text \<open>
  The claim C7 as it is written fails with the default logger: for \<^verbatim>\<open>IMG_005.png\<close>
  the first thing \<^verbatim>\<open>main\<close> does is to open the log file, and it has written to it
  twice when the extension is looked at.
\<close>

theorem C7_log_file_counterexample:
  "kindOf (source png_args) = Unsupported ''.png'' \<and>
   fst (main card_env png_args card_state) = Fatal (UnrecognizedExtension ''.png'') \<and>
   trace (snd (main card_env png_args card_state)) =
     [EvOpenLog ''/tmp/gardepro.log'',
      EvLog (LogFile ''/tmp/gardepro.log'') Separator,
      EvLog (LogFile ''/tmp/gardepro.log'') Starting,
      EvDialog ''Fatal Error'',
      EvLog (LogFile ''/tmp/gardepro.log'') (FatalEntry (UnrecognizedExtension ''.png''))] \<and>
   touches_fs (EvOpenLog ''/tmp/gardepro.log'') \<and>
   touches_fs (EvLog (LogFile ''/tmp/gardepro.log'') Starting)"
proof -
  have k: "kindOf ''/card/IMG_005.png'' = Unsupported ''.png''"
    by (simp add: kindOf_def Ext_def ToLower_def lower_chars)
  show ?thesis
    by (simp add: k png_args_def card_env_def card_state_def main_def archive_def plan_def
          creationTime_def errorFatal_def emit_def Let_def touches_fs_def)
qed

subsection \<open>The destination\<close>

text \<open>
  Claim C9. The kind of a source depends on its path up to the case of its letters
  only. Whatever comes before the extension, \<^verbatim>\<open>.jpg\<close> and \<^verbatim>\<open>.jpeg\<close> in any mixture of
  cases make it an image and \<^verbatim>\<open>.mp4\<close> a video; a source is an image exactly when its
  lowercased extension is \<^verbatim>\<open>.jpg\<close> or \<^verbatim>\<open>.jpeg\<close>, a video exactly when it is
  \<^verbatim>\<open>.mp4\<close>, and with any other extension the \<^verbatim>\<open>switch\<close> calls \<^verbatim>\<open>errorFatal\<close> with
  ``Unrecognized extension'' before it does anything else.
\<close>

theorem C9_kind_ignores_case:
  "(ToLower p = ToLower q \<longrightarrow> kindOf p = kindOf q) \<and>
   kindOf (stem @ ''.jpg'') = Image \<and> kindOf (stem @ ''.JPG'') = Image \<and>
   kindOf (stem @ ''.jpeg'') = Image \<and> kindOf (stem @ ''.JPEG'') = Image \<and>
   kindOf (stem @ ''.Jpg'') = Image \<and> kindOf (stem @ ''.jPeG'') = Image \<and>
   kindOf (stem @ ''.mp4'') = Video \<and> kindOf (stem @ ''.MP4'') = Video \<and>
   kindOf (stem @ ''.Mp4'') = Video \<and>
   (kindOf p = Image) = (ToLower (Ext p) = ''.jpg'' \<or> ToLower (Ext p) = ''.jpeg'') \<and>
   (kindOf p = Video) = (ToLower (Ext p) = ''.mp4'') \<and>
   (ToLower (Ext p) \<noteq> ''.jpg'' \<and> ToLower (Ext p) \<noteq> ''.jpeg'' \<and> ToLower (Ext p) \<noteq> ''.mp4'' \<longrightarrow>
      kindOf p = Unsupported (ToLower (Ext p)) \<and>
      creationTime ev lg p st = (Inl (UnrecognizedExtension (ToLower (Ext p))), st))"
proof -
  have "ToLower p = ToLower q \<longrightarrow> kindOf p = kindOf q"
    by (metis Ext_ToLower kindOf_def)
  moreover have "kindOf (stem @ ''.jpg'') = Image" "kindOf (stem @ ''.JPG'') = Image"
   "kindOf (stem @ ''.jpeg'') = Image" "kindOf (stem @ ''.JPEG'') = Image"
   "kindOf (stem @ ''.Jpg'') = Image" "kindOf (stem @ ''.jPeG'') = Image"
   "kindOf (stem @ ''.mp4'') = Video" "kindOf (stem @ ''.MP4'') = Video"
   "kindOf (stem @ ''.Mp4'') = Video"
    by (simp_all add: kindOf_def Ext_def ToLower_def lower_chars)
  moreover have "(kindOf p = Image) = (ToLower (Ext p) = ''.jpg'' \<or> ToLower (Ext p) = ''.jpeg'')"
    "(kindOf p = Video) = (ToLower (Ext p) = ''.mp4'')"
    by (auto simp: kindOf_def Let_def)
  moreover have "ToLower (Ext p) \<noteq> ''.jpg'' \<and> ToLower (Ext p) \<noteq> ''.jpeg'' \<and> ToLower (Ext p) \<noteq> ''.mp4'' \<longrightarrow>
      kindOf p = Unsupported (ToLower (Ext p)) \<and>
      creationTime ev lg p st = (Inl (UnrecognizedExtension (ToLower (Ext p))), st)"
    by (simp add: kindOf_def Let_def creationTime_def)
  ultimately show ?thesis by simp
qed

theorem C9_kind_ignores_case_witness:
  "ToLower ''/card/IMG_001.JpG'' = ToLower ''/card/img_001.jpg'' \<and>
   kindOf ''/card/IMG_001.JpG'' = kindOf ''/card/img_001.jpg'' \<and>
   kindOf ''/card/img_001.jpg'' = Image \<and>
   ToLower (Ext ''/card/IMG_005.PNG'') \<noteq> ''.jpg'' \<and>
   ToLower (Ext ''/card/IMG_005.PNG'') \<noteq> ''.jpeg'' \<and>
   ToLower (Ext ''/card/IMG_005.PNG'') \<noteq> ''.mp4'' \<and>
   kindOf ''/card/IMG_005.PNG'' = Unsupported ''.png''"
proof -
  have l: "ToLower ''/card/IMG_001.JpG'' = ToLower ''/card/img_001.jpg''"
    by code_simp
  have e: "ToLower (Ext ''/card/IMG_005.PNG'') = ''.png''"
    by code_simp
  from C9_kind_ignores_case [where p = "''/card/IMG_001.JpG''" and q = "''/card/img_001.jpg''"
      and stem = "''/card/img_001''"]
    C9_kind_ignores_case [where p = "''/card/IMG_005.PNG''"] l e
  show ?thesis by simp
qed

text \<open>
  Claim C10. For a root \<^verbatim>\<open>r\<close> that does not itself end with a separator,
  \<^verbatim>\<open>strings.TrimSuffix\<close> (line 94) makes \<^verbatim>\<open>r/\<close> into \<^verbatim>\<open>r\<close> and leaves \<^verbatim>\<open>r\<close> alone, so
  the target path and the target directory are the same for both, for every time and
  source, and so is all that the program does after line 94. For a root that is not
  empty the whole of \<^verbatim>\<open>main\<close> is the same.
\<close>

theorem C10_trailing_separator:
  assumes "\<not> HasSuffix r ''/''"
  shows "TrimSuffix (r @ ''/'') ''/'' = r \<and> TrimSuffix r ''/'' = r \<and>
         targetPathOf (TrimSuffix (r @ ''/'') ''/'') w src = targetPathOf (TrimSuffix r ''/'') w src \<and>
         targetDirOf (TrimSuffix (r @ ''/'') ''/'') w = targetDirOf (TrimSuffix r ''/'') w \<and>
         plan ev lg src (r @ ''/'') st = plan ev lg src r st \<and>
         archive ev lg src (r @ ''/'') st = archive ev lg src r st \<and>
         (r \<noteq> [] \<longrightarrow> main ev (a\<lparr>target := r @ ''/''\<rparr>) st = main ev (a\<lparr>target := r\<rparr>) st)"
proof -
  have t: "TrimSuffix (r @ ''/'') ''/'' = TrimSuffix r ''/''"
    using assms by (simp add: TrimSuffix_append TrimSuffix_none)
  then have p: "plan ev lg src (r @ ''/'') st = plan ev lg src r st" for ev lg src st
    by (simp add: plan_def)
  then have a: "archive ev lg src (r @ ''/'') st = archive ev lg src r st" for ev lg src st
    by (simp add: archive_def)
  show ?thesis using assms t p a
    by (simp add: TrimSuffix_append TrimSuffix_none main_def Let_def)
qed

theorem C10_trailing_separator_witness:
  "\<not> HasSuffix ''/archive'' ''/'' \<and>
   TrimSuffix ''/archive/'' ''/'' = ''/archive'' \<and>
   targetPathOf (TrimSuffix ''/archive/'' ''/'') afternoon_pacific ''/card/IMG_001.JPG'' =
     targetPathOf (TrimSuffix ''/archive'' ''/'') afternoon_pacific ''/card/IMG_001.JPG'' \<and>
   ''/archive'' \<noteq> [] \<and>
   main card_env (undated_args\<lparr>target := ''/archive/''\<rparr>) card_state =
     main card_env (undated_args\<lparr>target := ''/archive''\<rparr>) card_state"
  using C10_trailing_separator [of "''/archive''" afternoon_pacific "''/card/IMG_001.JPG''"
      card_env Console card_state undated_args]
  by (simp add: HasSuffix_def)

text \<open>
  Claim C4. The target path and the target directory are functions of the root, of the
  date and time on the clock and of the base name of the source: two times that read the
  same on the clock, whatever their instants and locations, and two sources with the same
  base name give the same paths. And two runs of the program, with any decoders, any
  logger, any file system and any trace behind them, that find times reading the same
  and are given the same root, up to one trailing separator, and sources of the same
  base name, come to the same target directory and the same target path.
\<close>

theorem C4_destination_is_a_function:
  "(civil t1 = civil t2 \<and> Base s1 = Base s2 \<longrightarrow>
      targetPathOf r t1 s1 = targetPathOf r t2 s2 \<and> targetDirOf r t1 = targetDirOf r t2) \<and>
   (plan ev1 lg1 s1 r1 st1 = (Inr (d1, p1), st1') \<and>
    plan ev2 lg2 s2 r2 st2 = (Inr (d2, p2), st2') \<and>
    fst (creationTime ev1 lg1 s1 (emit [EvLog lg1 Starting] st1)) = Inr w1 \<and>
    fst (creationTime ev2 lg2 s2 (emit [EvLog lg2 Starting] st2)) = Inr w2 \<and>
    TrimSuffix r1 ''/'' = TrimSuffix r2 ''/'' \<and> civil w1 = civil w2 \<and> Base s1 = Base s2 \<longrightarrow>
      p1 = p2 \<and> d1 = d2 \<and> p1 = targetPathOf (TrimSuffix r1 ''/'') w1 s1)"
proof (intro conjI impI)
  assume "civil t1 = civil t2 \<and> Base s1 = Base s2"
  then show "targetPathOf r t1 s1 = targetPathOf r t2 s2" "targetDirOf r t1 = targetDirOf r t2"
    by (simp_all add: targetPathOf_def targetDirOf_def Format_civil [of t1 t2])
next
  assume h: "plan ev1 lg1 s1 r1 st1 = (Inr (d1, p1), st1') \<and>
    plan ev2 lg2 s2 r2 st2 = (Inr (d2, p2), st2') \<and>
    fst (creationTime ev1 lg1 s1 (emit [EvLog lg1 Starting] st1)) = Inr w1 \<and>
    fst (creationTime ev2 lg2 s2 (emit [EvLog lg2 Starting] st2)) = Inr w2 \<and>
    TrimSuffix r1 ''/'' = TrimSuffix r2 ''/'' \<and> civil w1 = civil w2 \<and> Base s1 = Base s2"
  from h plan_Inr [of ev1 lg1 s1 r1 st1 d1 p1 st1']
  have a: "d1 = targetDirOf (TrimSuffix r1 ''/'') w1" "p1 = targetPathOf (TrimSuffix r1 ''/'') w1 s1"
    by auto
  from h plan_Inr [of ev2 lg2 s2 r2 st2 d2 p2 st2']
  have b: "d2 = targetDirOf (TrimSuffix r2 ''/'') w2" "p2 = targetPathOf (TrimSuffix r2 ''/'') w2 s2"
    by auto
  from h have c: "Format w1 = Format w2" by (intro ext Format_civil) simp
  from a b c h show "p1 = p2" "d1 = d2" "p1 = targetPathOf (TrimSuffix r1 ''/'') w1 s1"
    by (simp_all add: targetPathOf_def targetDirOf_def)
qed


theorem C4_destination_is_a_function_witness:
  "civil afternoon_pacific = civil (DateUTC 2023 6 15 14 30 5) \<and>
   Base ''/card/IMG_001.JPG'' = Base ''/backup/IMG_001.JPG'' \<and>
   targetPathOf ''/archive'' afternoon_pacific ''/card/IMG_001.JPG'' =
     targetPathOf ''/archive'' (DateUTC 2023 6 15 14 30 5) ''/backup/IMG_001.JPG'' \<and>
   fst (plan card_env Console ''/card/IMG_001.JPG'' ''/archive'' card_state) =
     Inr (''/archive/2023'', ''/archive/2023/06-15-14:30:05-IMG_001.JPG'') \<and>
   fst (plan card_env (LogFile ''/tmp/gardepro.log'') ''/card/IMG_001.JPG'' ''/archive/''
          ready_state) =
     Inr (''/archive/2023'', ''/archive/2023/06-15-14:30:05-IMG_001.JPG'') \<and>
   ''/archive/2023/06-15-14:30:05-IMG_001.JPG'' =
     targetPathOf (TrimSuffix ''/archive'' ''/'') (DateUTC 2023 6 15 14 30 5) ''/card/IMG_001.JPG''"
proof -
  have c: "civil afternoon_pacific = civil (DateUTC 2023 6 15 14 30 5)"
    by code_simp
  have b: "Base ''/card/IMG_001.JPG'' = Base ''/backup/IMG_001.JPG''"
    by code_simp
  have p1: "fst (plan card_env Console ''/card/IMG_001.JPG'' ''/archive'' card_state) =
     Inr (''/archive/2023'', ''/archive/2023/06-15-14:30:05-IMG_001.JPG'')"
    by code_simp
  have p2: "fst (plan card_env (LogFile ''/tmp/gardepro.log'') ''/card/IMG_001.JPG''
                   ''/archive/'' ready_state) =
     Inr (''/archive/2023'', ''/archive/2023/06-15-14:30:05-IMG_001.JPG'')"
    by code_simp
  have w1: "fst (creationTime card_env Console ''/card/IMG_001.JPG''
                   (emit [EvLog Console Starting] card_state)) =
     Inr (DateUTC 2023 6 15 14 30 5)"
    by code_simp
  have w2: "fst (creationTime card_env (LogFile ''/tmp/gardepro.log'') ''/card/IMG_001.JPG''
                   (emit [EvLog (LogFile ''/tmp/gardepro.log'') Starting] ready_state)) =
     Inr (DateUTC 2023 6 15 14 30 5)"
    by code_simp
  have r: "TrimSuffix ''/archive'' ''/'' = TrimSuffix ''/archive/'' ''/''"
    by code_simp
  from p1 have q1: "plan card_env Console ''/card/IMG_001.JPG'' ''/archive'' card_state =
    (Inr (''/archive/2023'', ''/archive/2023/06-15-14:30:05-IMG_001.JPG''),
     snd (plan card_env Console ''/card/IMG_001.JPG'' ''/archive'' card_state))"
    by (metis prod.collapse)
  from p2 have q2: "plan card_env (LogFile ''/tmp/gardepro.log'') ''/card/IMG_001.JPG''
                   ''/archive/'' ready_state =
    (Inr (''/archive/2023'', ''/archive/2023/06-15-14:30:05-IMG_001.JPG''),
     snd (plan card_env (LogFile ''/tmp/gardepro.log'') ''/card/IMG_001.JPG''
                   ''/archive/'' ready_state))"
    by (metis prod.collapse)
  note inst1 = C4_destination_is_a_function
    [where ?t1.0 = afternoon_pacific and ?t2.0 = "DateUTC 2023 6 15 14 30 5"
       and ?s1.0 = "''/card/IMG_001.JPG''" and ?s2.0 = "''/backup/IMG_001.JPG''"
       and r = "''/archive''"]
  from inst1 [THEN conjunct1] c b
  have one: "targetPathOf ''/archive'' afternoon_pacific ''/card/IMG_001.JPG'' =
     targetPathOf ''/archive'' (DateUTC 2023 6 15 14 30 5) ''/backup/IMG_001.JPG''"
    by simp
  note inst2 = C4_destination_is_a_function
    [where ?ev1.0 = card_env and ?lg1.0 = Console and ?s1.0 = "''/card/IMG_001.JPG''"
       and ?r1.0 = "''/archive''" and ?st1.0 = card_state
       and ?ev2.0 = card_env and ?lg2.0 = "LogFile ''/tmp/gardepro.log''"
       and ?s2.0 = "''/card/IMG_001.JPG''" and ?r2.0 = "''/archive/''" and ?st2.0 = ready_state
       and ?w1.0 = "DateUTC 2023 6 15 14 30 5" and ?w2.0 = "DateUTC 2023 6 15 14 30 5",
     THEN conjunct2]
  from inst2 q1 q2 w1 w2 r
  have two: "''/archive/2023/06-15-14:30:05-IMG_001.JPG'' =
     targetPathOf (TrimSuffix ''/archive'' ''/'') (DateUTC 2023 6 15 14 30 5) ''/card/IMG_001.JPG''"
    by blast
  from c b one p1 p2 two show ?thesis by simp
qed

subsection \<open>Digits and layouts\<close>

lemma digit_0: "digit 0 = CHR ''0''"
  by code_simp

lemma replicate_small:
  "replicate (Suc 0) c = [c]" "replicate 2 c = [c, c]" "replicate 3 c = [c, c, c]"
  by (simp_all add: numeral_2_eq_2 numeral_3_eq_3)

lemma digits10_1: "n < 10 \<Longrightarrow> digits10 n = [digit n]"
  by (subst digits10.simps) simp

lemma digits10_2: "10 \<le> n \<Longrightarrow> n < 100 \<Longrightarrow> digits10 n = [digit (n div 10), digit (n mod 10)]"
  by (subst digits10.simps) (simp add: digits10_1)

lemma digits10_3: "100 \<le> n \<Longrightarrow> n < 1000 \<Longrightarrow>
    digits10 n = [digit (n div 100), digit (n div 10 mod 10), digit (n mod 10)]"
  by (subst digits10.simps) (simp add: digits10_2 div_mult2_eq [symmetric])

lemma digits10_4: "1000 \<le> n \<Longrightarrow> n < 10000 \<Longrightarrow>
    digits10 n = [digit (n div 1000), digit (n div 100 mod 10), digit (n div 10 mod 10),
                  digit (n mod 10)]"
  by (subst digits10.simps) (simp add: digits10_3 div_mult2_eq [symmetric])

lemma appendInt_two:
  assumes "0 \<le> x" "x \<le> 99"
  shows "appendInt x 2 = two_digits x"
proof -
  define n where "n = nat x"
  have x: "x = int n" using assms by (simp add: n_def)
  have n: "n < 100" using assms by (simp add: n_def)
  have conv: "nat (int n div 10) = n div 10" "nat (int n mod 10) = n mod 10"
    by (simp_all add: nat_div_distrib nat_mod_distrib)
  show ?thesis
  proof (cases "n < 10")
    case True
    then show ?thesis
      by (simp add: x appendInt_def two_digits_def digits10_1 conv digit_0)
  next
    case False
    with n show ?thesis
      by (simp add: x appendInt_def two_digits_def digits10_2 conv)
  qed
qed

lemma appendInt_four:
  assumes "0 \<le> x" "x \<le> 9999"
  shows "appendInt x 4 = four_digits x"
proof -
  define n where "n = nat x"
  have x: "x = int n" using assms by (simp add: n_def)
  have n: "n < 10000" using assms by (simp add: n_def)
  have conv: "nat (int n div 1000) = n div 1000" "nat (int n div 100 mod 10) = n div 100 mod 10"
    "nat (int n div 10 mod 10) = n div 10 mod 10" "nat (int n mod 10) = n mod 10"
    "nat (int n div 10) = n div 10" "nat (int n div 100) = n div 100"
    by (simp_all add: nat_div_distrib nat_mod_distrib flip: zdiv_int zmod_int)
  consider "n < 10" | "10 \<le> n" "n < 100" | "100 \<le> n" "n < 1000" | "1000 \<le> n"
    by linarith
  then show ?thesis
  proof cases
    case 1
    then show ?thesis
      by (simp add: x appendInt_def four_digits_def digits10_1 conv replicate_small digit_0)
  next
    case 2
    then show ?thesis
      by (simp add: x appendInt_def four_digits_def digits10_2 conv replicate_small digit_0)
  next
    case 3
    then show ?thesis
      by (simp add: x appendInt_def four_digits_def digits10_3 conv replicate_small digit_0)
  next
    case 4
    with n show ?thesis
      by (simp add: x appendInt_def four_digits_def digits10_4 conv)
  qed
qed

lemma chunks_stub:
  "layout_chunks fileDateStubFmt =
     Some [Lit ''/'', Std stdLongYear, Lit ''/'', Std stdZeroMonth, Lit ''-'', Std stdZeroDay,
           Lit ''-'', Std stdHour, Lit '':'', Std stdZeroMinute, Lit '':'', Std stdZeroSecond,
           Lit ''-'']"
  by code_simp

lemma chunks_dir: "layout_chunks targetDirFmt = Some [Lit ''/'', Std stdLongYear]"
  by code_simp

lemma Format_stub:
  "Format t fileDateStubFmt =
     ''/'' @ appendInt (Year t) 4 @ ''/'' @ appendInt (Month t) 2 @ ''-'' @ appendInt (Day t) 2
       @ ''-'' @ appendInt (Hour t) 2 @ '':'' @ appendInt (Minute t) 2 @ '':''
       @ appendInt (Second t) 2 @ ''-''"
  by (simp add: Format_def chunks_stub formatChunk_def formatStd_def)

lemma Format_dir: "Format t targetDirFmt = ''/'' @ appendInt (Year t) 4"
  by (simp add: Format_def chunks_dir formatChunk_def formatStd_def)

subsection \<open>The calendar\<close>

text \<open>
  \<^verbatim>\<open>time.Date\<close> followed by the accessors of \<^verbatim>\<open>time.Time\<close> gives back the date and
  time it was given, for every year: the quotients of \<^verbatim>\<open>absDate\<close> undo the sums of
  \<^verbatim>\<open>daysSinceEpoch\<close>, one cycle of 400, 100, 4 and 1 years at a time.
\<close>

lemma absYear_steps:
  assumes "n1 = days div 146097" and "d1 = days - 146097 * n1"
      and "n2 = d1 div 36524" and "n2' = n2 - n2 div 4" and "d2 = d1 - 36524 * n2'"
      and "n3 = d2 div 1461" and "d3 = d2 - 1461 * n3"
      and "n4 = d3 div 365" and "n4' = n4 - n4 div 4" and "d4 = d3 - 365 * n4'"
  shows "absYear days = (400 * n1 + 100 * n2' + 4 * n3 + n4' + 1, d4)"
  by (simp only: absYear_def Let_def daysPer400Years_def daysPer100Years_def
        daysPer4Years_def assms [symmetric])

lemma absYear_compose:
  fixes q1 q2 q3 r3 yd :: int
  assumes q2: "0 \<le> q2" "q2 \<le> 3" and q3: "0 \<le> q3" "q3 \<le> 24" and r3: "0 \<le> r3" "r3 \<le> 3"
      and yd: "0 \<le> yd" "yd \<le> 364 \<or> (yd = 365 \<and> r3 = 3 \<and> (q3 \<noteq> 24 \<or> q2 = 3))"
  shows "absYear (146097 * q1 + 36524 * q2 + 1461 * q3 + 365 * r3 + yd)
           = (400 * q1 + 100 * q2 + 4 * q3 + r3 + 1, yd)"
proof -
  let ?R3 = "365 * r3 + yd"
  let ?R2 = "1461 * q3 + ?R3"
  let ?R1 = "36524 * q2 + ?R2"
  let ?D = "146097 * q1 + 36524 * q2 + 1461 * q3 + 365 * r3 + yd"
  have yd': "yd \<le> 365" using yd by linarith
  have R3: "0 \<le> ?R3" "?R3 \<le> 1460" using r3 yd(1) yd' by linarith+
  have R2: "0 \<le> ?R2" "?R2 \<le> 36524" using q3 R3 by linarith+
  have R2top: "q2 = 3" if "?R2 = 36524"
  proof -
    from that q3 r3 yd(1) yd' have "q3 = 24 \<and> r3 = 3 \<and> yd = 365" by linarith
    with yd(2) show ?thesis by linarith
  qed
  have R1: "0 \<le> ?R1" "?R1 < 146097"
  proof -
    show "0 \<le> ?R1" using q2 R2 by linarith
    show "?R1 < 146097"
    proof (cases "?R2 = 36524")
      case True
      from R2top [OF True] True show ?thesis by linarith
    next
      case False
      with R2 q2 show ?thesis by linarith
    qed
  qed
  have n1: "q1 = ?D div 146097"
    by (rule int_div_pos_eq [symmetric, where r = ?R1]) (use R1 in simp_all)
  have d1: "?R1 = ?D - 146097 * q1" by simp
  define n2 where "n2 = (if ?R2 = 36524 then q2 + 1 else q2)"
  have n2: "n2 = ?R1 div 36524"
  proof (cases "?R2 = 36524")
    case True
    then have "?R1 = 36524 * (q2 + 1) + 0" by simp
    then have "?R1 div 36524 = q2 + 1" by (rule int_div_pos_eq) simp_all
    with True show ?thesis by (simp add: n2_def)
  next
    case False
    with R2 have "?R2 < 36524" by simp
    with R2 have "?R1 div 36524 = q2" by (intro int_div_pos_eq [where r = ?R2]) simp_all
    with False show ?thesis by (simp add: n2_def)
  qed
  have n2': "q2 = n2 - n2 div 4"
  proof (cases "?R2 = 36524")
    case True
    from R2top [OF True] True show ?thesis by (simp add: n2_def)
  next
    case False
    from q2 have "q2 div 4 = 0" by simp
    with False show ?thesis by (simp add: n2_def)
  qed
  have d2: "?R2 = ?R1 - 36524 * q2" by simp
  have n3: "q3 = ?R2 div 1461"
    by (rule int_div_pos_eq [symmetric, where r = ?R3]) (use R3 in simp_all)
  have d3: "?R3 = ?R2 - 1461 * q3" by simp
  define n4 where "n4 = (if yd = 365 then r3 + 1 else r3)"
  have n4: "n4 = ?R3 div 365"
  proof (cases "yd = 365")
    case True
    then have "?R3 = 365 * (r3 + 1) + 0" by simp
    then have "?R3 div 365 = r3 + 1" by (rule int_div_pos_eq) simp_all
    with True show ?thesis by (simp add: n4_def)
  next
    case False
    with yd' have "yd < 365" by linarith
    with yd(1) have "?R3 div 365 = r3" by (intro int_div_pos_eq [where r = yd]) simp_all
    with False show ?thesis by (simp add: n4_def)
  qed
  have n4': "r3 = n4 - n4 div 4"
  proof (cases "yd = 365")
    case True
    with yd(2) have "r3 = 3" by linarith
    with True show ?thesis by (simp add: n4_def)
  next
    case False
    from r3 have "r3 div 4 = 0" by simp
    with False show ?thesis by (simp add: n4_def)
  qed
  have d4: "yd = ?R3 - 365 * r3" by simp
  show ?thesis
    by (rule absYear_steps [OF n1 d1 n2 n2' d2 n3 d3 n4 n4' d4])
qed

lemma top_mod:
  fixes x b :: int
  assumes "0 < x" "x \<le> b"
  shows "x mod b = 0 \<longleftrightarrow> x = b"
proof (cases "x = b")
  case True
  then show ?thesis by simp
next
  case False
  with assms have "x < b" by simp
  with assms(1) have "x mod b = x" by simp
  with assms(1) False show ?thesis by simp
qed

lemma year_split:
  fixes year :: int
  obtains q1 q2 q3 r3 where
    "year = 400 * q1 + 100 * q2 + 4 * q3 + r3 + 1"
    "0 \<le> q2" "q2 \<le> 3" "0 \<le> q3" "q3 \<le> 24" "0 \<le> r3" "r3 \<le> 3"
    "daysSinceEpoch year = 146097 * q1 + 36524 * q2 + 1461 * q3 + 365 * r3"
    "isLeap year \<longleftrightarrow> r3 = 3 \<and> (q3 \<noteq> 24 \<or> q2 = 3)"
proof -
  define y where "y = year - 1"
  define q1 where "q1 = y div 400"
  define y1 where "y1 = y mod 400"
  define q2 where "q2 = y1 div 100"
  define y2 where "y2 = y1 mod 100"
  define q3 where "q3 = y2 div 4"
  define r3 where "r3 = y2 mod 4"
  have y: "y = 400 * q1 + y1" by (simp add: q1_def y1_def)
  have y1: "y1 = 100 * q2 + y2" "0 \<le> y1" "y1 < 400" by (simp_all add: q2_def y2_def y1_def)
  have y2: "y2 = 4 * q3 + r3" "0 \<le> y2" "y2 < 100" by (simp_all add: q3_def r3_def y2_def)
  have r3: "0 \<le> r3" "r3 \<le> 3" by (simp_all add: r3_def) 
  have q2: "0 \<le> q2" "q2 \<le> 3"
  proof -
    show "0 \<le> q2" using y1(2) by (simp add: q2_def pos_imp_zdiv_nonneg_iff)
    from y1(3) have "y1 \<le> 399" by simp
    then have "y1 div 100 \<le> 399 div 100" by (rule zdiv_mono1) simp
    then show "q2 \<le> 3" by (simp add: q2_def)
  qed
  have q3: "0 \<le> q3" "q3 \<le> 24"
  proof -
    show "0 \<le> q3" using y2(2) by (simp add: q3_def pos_imp_zdiv_nonneg_iff)
    from y2(3) have "y2 \<le> 99" by simp
    then have "y2 div 4 \<le> 99 div 4" by (rule zdiv_mono1) simp
    then show "q3 \<le> 24" by (simp add: q3_def)
  qed
  have yr: "year = 400 * q1 + 100 * q2 + 4 * q3 + r3 + 1"
    using y y1(1) y2(1) by (simp add: y_def)
  have e1: "y - 400 * q1 = y1" using y by simp
  have e2: "y1 - 100 * q2 = y2" using y1(1) by simp
  have e3: "y2 - 4 * q3 = r3" using y2(1) by simp
  have dse: "daysSinceEpoch year = 146097 * q1 + 36524 * q2 + 1461 * q3 + 365 * r3"
    unfolding daysSinceEpoch_def Let_def daysPer400Years_def daysPer100Years_def
      daysPer4Years_def y_def [symmetric] q1_def [symmetric] e1 q2_def [symmetric] e2
      q3_def [symmetric] e3
    by simp
  have "year = (r3 + 1) + 4 * (100 * q1 + 25 * q2 + q3)" by (simp add: yr)
  then have "year mod 4 = (r3 + 1) mod 4" by (simp only: mod_mult_self2)
  then have m4: "year mod 4 = 0 \<longleftrightarrow> r3 = 3"
    using r3 by (simp add: top_mod)
  have "year = (4 * q3 + r3 + 1) + 100 * (4 * q1 + q2)" by (simp add: yr)
  then have "year mod 100 = (4 * q3 + r3 + 1) mod 100" by (simp only: mod_mult_self2)
  then have m100: "year mod 100 = 0 \<longleftrightarrow> q3 = 24 \<and> r3 = 3"
    using r3 q3 by (simp add: top_mod) linarith
  have "year = (100 * q2 + 4 * q3 + r3 + 1) + 400 * q1" by (simp add: yr)
  then have "year mod 400 = (100 * q2 + 4 * q3 + r3 + 1) mod 400" by (simp only: mod_mult_self2)
  then have m400: "year mod 400 = 0 \<longleftrightarrow> q2 = 3 \<and> q3 = 24 \<and> r3 = 3"
    using r3 q3 q2 by (simp add: top_mod) linarith
  have leap: "isLeap year \<longleftrightarrow> r3 = 3 \<and> (q3 \<noteq> 24 \<or> q2 = 3)"
    unfolding isLeap_def m4 m100 m400 by blast
  from yr q2 q3 r3 dse leap show ?thesis by (rule that)
qed

lemma month_estimate:
  fixes mo d day :: int
  assumes "1 \<le> mo" "mo \<le> 12" "1 \<le> d"
      and "d \<le> daysBefore ! nat mo - daysBefore ! nat (mo - 1)"
      and "day = daysBefore ! nat (mo - 1) + (d - 1)"
  shows "monthEstimate day = (mo, d)"
proof -
  from assms(1,2) have "mo \<in> set [1..12]" by simp
  then consider "mo = 1" | "mo = 2" | "mo = 3" | "mo = 4" | "mo = 5" | "mo = 6"
    | "mo = 7" | "mo = 8" | "mo = 9" | "mo = 10" | "mo = 11" | "mo = 12"
    by (simp add: upto.simps) blast
  then show ?thesis
  proof cases
    case 1
    with assms have "d \<in> set [1..31]" by (simp add: daysBefore_def)
    then show ?thesis unfolding assms(5) 1
      by (simp add: upto.simps) (elim disjE; simp add: daysBefore_def monthEstimate_def)
  next
    case 2
    with assms have "d \<in> set [1..28]" by (simp add: daysBefore_def)
    then show ?thesis unfolding assms(5) 2
      by (simp add: upto.simps) (elim disjE; simp add: daysBefore_def monthEstimate_def)
  next
    case 3
    with assms have "d \<in> set [1..31]" by (simp add: daysBefore_def)
    then show ?thesis unfolding assms(5) 3
      by (simp add: upto.simps) (elim disjE; simp add: daysBefore_def monthEstimate_def)
  next
    case 4
    with assms have "d \<in> set [1..30]" by (simp add: daysBefore_def)
    then show ?thesis unfolding assms(5) 4
      by (simp add: upto.simps) (elim disjE; simp add: daysBefore_def monthEstimate_def)
  next
    case 5
    with assms have "d \<in> set [1..31]" by (simp add: daysBefore_def)
    then show ?thesis unfolding assms(5) 5
      by (simp add: upto.simps) (elim disjE; simp add: daysBefore_def monthEstimate_def)
  next
    case 6
    with assms have "d \<in> set [1..30]" by (simp add: daysBefore_def)
    then show ?thesis unfolding assms(5) 6
      by (simp add: upto.simps) (elim disjE; simp add: daysBefore_def monthEstimate_def)
  next
    case 7
    with assms have "d \<in> set [1..31]" by (simp add: daysBefore_def)
    then show ?thesis unfolding assms(5) 7
      by (simp add: upto.simps) (elim disjE; simp add: daysBefore_def monthEstimate_def)
  next
    case 8
    with assms have "d \<in> set [1..31]" by (simp add: daysBefore_def)
    then show ?thesis unfolding assms(5) 8
      by (simp add: upto.simps) (elim disjE; simp add: daysBefore_def monthEstimate_def)
  next
    case 9
    with assms have "d \<in> set [1..30]" by (simp add: daysBefore_def)
    then show ?thesis unfolding assms(5) 9
      by (simp add: upto.simps) (elim disjE; simp add: daysBefore_def monthEstimate_def)
  next
    case 10
    with assms have "d \<in> set [1..31]" by (simp add: daysBefore_def)
    then show ?thesis unfolding assms(5) 10
      by (simp add: upto.simps) (elim disjE; simp add: daysBefore_def monthEstimate_def)
  next
    case 11
    with assms have "d \<in> set [1..30]" by (simp add: daysBefore_def)
    then show ?thesis unfolding assms(5) 11
      by (simp add: upto.simps) (elim disjE; simp add: daysBefore_def monthEstimate_def)
  next
    case 12
    with assms have "d \<in> set [1..31]" by (simp add: daysBefore_def)
    then show ?thesis unfolding assms(5) 12
      by (simp add: upto.simps) (elim disjE; simp add: daysBefore_def monthEstimate_def)
  qed
qed

lemma month_cases:
  fixes mo :: int
  assumes "1 \<le> mo" "mo \<le> 12"
  obtains "mo = 1" | "mo = 2" | "mo = 3" | "mo = 4" | "mo = 5" | "mo = 6"
    | "mo = 7" | "mo = 8" | "mo = 9" | "mo = 10" | "mo = 11" | "mo = 12"
proof -
  from assms have "mo \<in> set [1..12]" by simp
  then have "mo = 1 \<or> mo = 2 \<or> mo = 3 \<or> mo = 4 \<or> mo = 5 \<or> mo = 6 \<or> mo = 7 \<or> mo = 8
      \<or> mo = 9 \<or> mo = 10 \<or> mo = 11 \<or> mo = 12"
    by (simp add: upto.simps)
  then show ?thesis using that by blast
qed

lemma yearday_bounds:
  fixes mo d year :: int
  assumes "1 \<le> mo" "mo \<le> 12" "1 \<le> d" "d \<le> daysIn mo year"
  shows "0 \<le> daysBefore ! nat (mo - 1) + (if isLeap year \<and> 3 \<le> mo then 1 else 0) + (d - 1)"
    and "daysBefore ! nat (mo - 1) + (if isLeap year \<and> 3 \<le> mo then 1 else 0) + (d - 1) \<le> 364
         \<or> (daysBefore ! nat (mo - 1) + (if isLeap year \<and> 3 \<le> mo then 1 else 0) + (d - 1) = 365
            \<and> isLeap year)"
proof -
  show "0 \<le> daysBefore ! nat (mo - 1) + (if isLeap year \<and> 3 \<le> mo then 1 else 0) + (d - 1)"
    using assms(3,4)
    by (cases rule: month_cases [OF assms(1,2)]; simp add: daysBefore_def daysIn_def)
  show "daysBefore ! nat (mo - 1) + (if isLeap year \<and> 3 \<le> mo then 1 else 0) + (d - 1) \<le> 364
         \<or> (daysBefore ! nat (mo - 1) + (if isLeap year \<and> 3 \<le> mo then 1 else 0) + (d - 1) = 365
            \<and> isLeap year)"
    using assms(3,4)
    by (cases rule: month_cases [OF assms(1,2)]; simp add: daysBefore_def daysIn_def split: if_splits; arith?)
qed

lemma monthDay_roundtrip:
  fixes mo d year :: int
  assumes "1 \<le> mo" "mo \<le> 12" "1 \<le> d" "d \<le> daysIn mo year"
  shows "monthDay year
           (daysBefore ! nat (mo - 1) + (if isLeap year \<and> 3 \<le> mo then 1 else 0) + (d - 1))
         = (mo, d)"
proof (cases "isLeap year")
  case False
  with assms(4) have len: "d \<le> daysBefore ! nat mo - daysBefore ! nat (mo - 1)"
    by (simp add: daysIn_def)
  from month_estimate [OF assms(1-3) len refl] False show ?thesis
    by (simp add: monthDay_def)
next
  case True
  show ?thesis
  proof (cases "mo = 2 \<and> d = 29")
    case leapday: True
    with True show ?thesis by (simp add: monthDay_def daysBefore_def)
  next
    case False
    with assms(4) True have len: "d \<le> daysBefore ! nat mo - daysBefore ! nat (mo - 1)"
      by (cases "mo = 2") (simp_all add: daysIn_def daysBefore_def)
    note est = month_estimate [OF assms(1-3) len refl]
    show ?thesis
    proof (cases "3 \<le> mo")
      case late: True
      have "59 \<le> daysBefore ! nat (mo - 1)"
        using late by (cases rule: month_cases [OF assms(1,2)]; simp add: daysBefore_def)
      with assms(3) have "59 < daysBefore ! nat (mo - 1) + 1 + (d - 1)" by linarith
      with True late est show ?thesis
        by (simp add: monthDay_def algebra_simps)
    next
      case early: False
      have "daysBefore ! nat (mo - 1) + (d - 1) < 59"
        using early False len assms(3)
        by (cases rule: month_cases [OF assms(1,2)]; simp add: daysBefore_def)
      with True early est show ?thesis
        by (simp add: monthDay_def algebra_simps)
    qed
  qed
qed

lemma clock_fields:
  fixes D h mi s :: int
  assumes "0 \<le> h" "h < 24" "0 \<le> mi" "mi < 60" "0 \<le> s" "s < 60"
  shows "(D * 86400 + h * 3600 + mi * 60 + s) div 86400 = D"
    and "((D * 86400 + h * 3600 + mi * 60 + s) mod 86400) div 3600 = h"
    and "(((D * 86400 + h * 3600 + mi * 60 + s) mod 86400) mod 3600) div 60 = mi"
    and "((D * 86400 + h * 3600 + mi * 60 + s) mod 86400) mod 60 = s"
proof -
  let ?a = "D * 86400 + h * 3600 + mi * 60 + s"
  let ?r = "h * 3600 + mi * 60 + s"
  have r: "0 \<le> ?r" "?r < 86400" using assms by linarith+
  have a: "?a = 86400 * D + ?r" by simp
  show "?a div 86400 = D" using a r by (rule int_div_pos_eq)
  have m: "?a mod 86400 = ?r" using a r by (rule int_mod_pos_eq)
  have r2: "0 \<le> mi * 60 + s" "mi * 60 + s < 3600" using assms by linarith+
  have b: "?r = 3600 * h + (mi * 60 + s)" by simp
  show "(?a mod 86400) div 3600 = h" unfolding m using b r2 by (rule int_div_pos_eq)
  have m2: "?r mod 3600 = mi * 60 + s" using b r2 by (rule int_mod_pos_eq)
  have c: "mi * 60 + s = 60 * mi + s" by simp
  show "((?a mod 86400) mod 3600) div 60 = mi" unfolding m m2 using c assms(5,6)
    by (rule int_div_pos_eq)
  have "?r = 60 * (60 * h + mi) + s" by simp
  then have "?r mod 60 = s" using assms(5,6) by (rule int_mod_pos_eq)
  then show "(?a mod 86400) mod 60 = s" unfolding m .
qed

lemma absYear_roundtrip:
  fixes mo d year :: int
  assumes "1 \<le> mo" "mo \<le> 12" "1 \<le> d" "d \<le> daysIn mo year"
  shows "absYear (daysSinceEpoch year + daysBefore ! nat (mo - 1)
                    + (if isLeap year \<and> 3 \<le> mo then 1 else 0) + (d - 1))
         = (year, daysBefore ! nat (mo - 1) + (if isLeap year \<and> 3 \<le> mo then 1 else 0) + (d - 1))"
proof -
  let ?yd = "daysBefore ! nat (mo - 1) + (if isLeap year \<and> 3 \<le> mo then 1 else 0) + (d - 1)"
  obtain q1 q2 q3 r3 where
    yr: "year = 400 * q1 + 100 * q2 + 4 * q3 + r3 + 1"
    and b: "0 \<le> q2" "q2 \<le> 3" "0 \<le> q3" "q3 \<le> 24" "0 \<le> r3" "r3 \<le> 3"
    and dse: "daysSinceEpoch year = 146097 * q1 + 36524 * q2 + 1461 * q3 + 365 * r3"
    and leap: "isLeap year \<longleftrightarrow> r3 = 3 \<and> (q3 \<noteq> 24 \<or> q2 = 3)"
    by (rule year_split)
  note yb = yearday_bounds [OF assms]
  from yb(2) leap have top: "?yd \<le> 364 \<or> (?yd = 365 \<and> r3 = 3 \<and> (q3 \<noteq> 24 \<or> q2 = 3))"
    by blast
  have "absYear (146097 * q1 + 36524 * q2 + 1461 * q3 + 365 * r3 + ?yd)
          = (400 * q1 + 100 * q2 + 4 * q3 + r3 + 1, ?yd)"
    by (rule absYear_compose [OF b yb(1) top])
  then have step: "absYear (146097 * q1 + 36524 * q2 + 1461 * q3 + 365 * r3 + ?yd) = (year, ?yd)"
    by (simp only: yr [symmetric])
  have e: "daysSinceEpoch year + daysBefore ! nat (mo - 1)
                    + (if isLeap year \<and> 3 \<le> mo then 1 else 0) + (d - 1)
      = 146097 * q1 + 36524 * q2 + 1461 * q3 + 365 * r3 + ?yd"
    unfolding dse by simp
  show ?thesis by (simp only: e step)
qed

lemma abs_sec_DateUTC:
  fixes mo :: int
  assumes "1 \<le> mo" "mo \<le> 12"
  shows "abs_sec (DateUTC y mo d h mi s) =
           (daysSinceEpoch y + daysBefore ! nat (mo - 1)
              + (if isLeap y \<and> 3 \<le> mo then 1 else 0) + (d - 1)) * 86400
           + h * 3600 + mi * 60 + s"
proof -
  from assms have "(mo - 1) div 12 = 0" "(mo - 1) mod 12 = mo - 1" by simp_all
  then show ?thesis
    by (simp add: DateUTC_def abs_sec_def Let_def UTC_def secondsPerDay_def)
qed

lemma DateUTC_civil:
  assumes "1 \<le> mo" "mo \<le> 12" "1 \<le> d" "d \<le> daysIn mo y"
      and "0 \<le> h" "h < 24" "0 \<le> mi" "mi < 60" "0 \<le> s" "s < 60"
  shows "civil (DateUTC y mo d h mi s) = (y, mo, d, h, mi, s)"
proof -
  let ?yd = "daysBefore ! nat (mo - 1) + (if isLeap y \<and> 3 \<le> mo then 1 else 0) + (d - 1)"
  let ?D = "daysSinceEpoch y + daysBefore ! nat (mo - 1)
              + (if isLeap y \<and> 3 \<le> mo then 1 else 0) + (d - 1)"
  note a = abs_sec_DateUTC [OF assms(1,2), of y d h mi s]
  note c = clock_fields [OF assms(5-10), of ?D]
  have days: "abs_sec (DateUTC y mo d h mi s) div secondsPerDay = ?D"
    unfolding a secondsPerDay_def by (rule c(1))
  have ay: "absYear ?D = (y, ?yd)" by (rule absYear_roundtrip [OF assms(1-4)])
  have yr: "Year (DateUTC y mo d h mi s) = y" by (simp only: Year_def days ay fst_conv)
  have yd: "YearDay0 (DateUTC y mo d h mi s) = ?yd" by (simp only: YearDay0_def days ay snd_conv)
  have md: "monthDay y ?yd = (mo, d)" by (rule monthDay_roundtrip [OF assms(1-4)])
  have mo: "Month (DateUTC y mo d h mi s) = mo" by (simp only: Month_def yr yd md fst_conv)
  have d: "Day (DateUTC y mo d h mi s) = d" by (simp only: Day_def yr yd md snd_conv)
  have h: "Hour (DateUTC y mo d h mi s) = h"
    unfolding Hour_def a secondsPerDay_def by (rule c(2))
  have mi: "Minute (DateUTC y mo d h mi s) = mi"
    unfolding Minute_def a secondsPerDay_def by (rule c(3))
  have s: "Second (DateUTC y mo d h mi s) = s"
    unfolding Second_def a secondsPerDay_def by (rule c(4))
  show ?thesis by (simp only: civil_def yr mo d h mi s)
qed

lemma daysIn_le:
  fixes mo :: int
  assumes "1 \<le> mo" "mo \<le> 12"
  shows "daysIn mo y \<le> 31"
  by (cases rule: month_cases [OF assms]; simp add: daysIn_def daysBefore_def)

subsection \<open>Base names\<close>

lemma last_element:
  assumes "c \<noteq> CHR ''/''" "CHR ''/'' \<notin> set cs"
  shows "dropWhile (\<lambda>x. x = CHR ''/'') (c # rev cs @ rest) = c # rev cs @ rest"
    and "takeWhile (\<lambda>x. x \<noteq> CHR ''/'') (c # rev cs @ CHR ''/'' # rest) = c # rev cs"
    and "takeWhile (\<lambda>x. x \<noteq> CHR ''/'') (c # rev cs) = c # rev cs"
proof -
  from assms(2) have a: "\<forall>x \<in> set (rev cs). x \<noteq> CHR ''/''" by auto
  show "dropWhile (\<lambda>x. x = CHR ''/'') (c # rev cs @ rest) = c # rev cs @ rest"
    using assms(1) by simp
  show "takeWhile (\<lambda>x. x \<noteq> CHR ''/'') (c # rev cs @ CHR ''/'' # rest) = c # rev cs"
    using assms(1) a by (simp add: takeWhile_append2 takeWhile_tail)
  show "takeWhile (\<lambda>x. x \<noteq> CHR ''/'') (c # rev cs) = c # rev cs"
    using assms(1) a by simp
qed

lemma Base_in_dir:
  assumes "name \<noteq> []" "CHR ''/'' \<notin> set name"
  shows "Base (dir @ ''/'' @ name) = name"
proof -
  from assms(1) obtain cs c where n: "name = cs @ [c]" by (cases name rule: rev_cases) auto
  with assms(2) have c: "c \<noteq> CHR ''/''" and cs: "CHR ''/'' \<notin> set cs" by auto
  have r: "rev (dir @ ''/'' @ cs @ [c]) = c # rev cs @ CHR ''/'' # rev dir" by simp
  show ?thesis
    unfolding n Base_def Let_def r last_element(1) [OF c cs] last_element(2) [OF c cs]
    by simp
qed

lemma Base_alone:
  assumes "name \<noteq> []" "CHR ''/'' \<notin> set name"
  shows "Base name = name"
proof -
  from assms(1) obtain cs c where n: "name = cs @ [c]" by (cases name rule: rev_cases) auto
  with assms(2) have c: "c \<noteq> CHR ''/''" and cs: "CHR ''/'' \<notin> set cs" by auto
  have r: "rev (cs @ [c]) = c # rev cs @ []" by simp
  show ?thesis
    unfolding n Base_def Let_def r last_element(1) [OF c cs]
    using last_element(3) [OF c cs] by simp
qed

text \<open>
  Claim C1. For a time that reads, on its clock, as a date of the calendar with a year
  from 0 to 9999, the target path is the root, a separator, the year in four digits, a
  separator, month, day, hour, minute and second in two digits each, joined by
  \<^verbatim>\<open>-\<close>, \<^verbatim>\<open>-\<close>, \<^verbatim>\<open>:\<close> and \<^verbatim>\<open>:\<close>, one more \<^verbatim>\<open>-\<close> and the base name of the source; the
  target directory is the root, a separator and the year. Every such date is read back
  from the time that \<^verbatim>\<open>time.Date\<close> makes of it, so the statement is about each of them.
  The base name of a path is its last element, extension included. The date and time
  \<^verbatim>\<open>2023:06:15 14:30:05\<close> is parsed by line 125 into a time that, with the root
  \<^verbatim>\<open>/archive\<close> and the source \<^verbatim>\<open>IMG_001.JPG\<close>, gives
  \<^verbatim>\<open>/archive/2023/06-15-14:30:05-IMG_001.JPG\<close>. The root may be any string.
\<close>

theorem C1_destination_layout:
  assumes "civil t = (y, mo, d, h, mi, s)" and "valid_civil y mo d h mi s"
  shows "targetPathOf root t src =
           root @ ''/'' @ four_digits y @ ''/'' @ two_digits mo @ ''-'' @ two_digits d @ ''-''
             @ two_digits h @ '':'' @ two_digits mi @ '':'' @ two_digits s @ ''-'' @ Base src \<and>
         targetDirOf root t = root @ ''/'' @ four_digits y \<and>
         length (four_digits y) = 4 \<and>
         civil (DateUTC y mo d h mi s) = (y, mo, d, h, mi, s) \<and>
         (name \<noteq> [] \<and> CHR ''/'' \<notin> set name \<longrightarrow>
            Base (dir @ ''/'' @ name) = name \<and> Base name = name) \<and>
         Parse ''2006:01:02 15:04:05'' ''2023:06:15 14:30:05'' = Some (DateUTC 2023 6 15 14 30 5) \<and>
         targetPathOf ''/archive'' (DateUTC 2023 6 15 14 30 5) ''IMG_001.JPG'' =
           ''/archive/2023/06-15-14:30:05-IMG_001.JPG''"
proof -
  from assms(2) have v: "0 \<le> y" "y \<le> 9999" "1 \<le> mo" "mo \<le> 12" "1 \<le> d" "d \<le> daysIn mo y"
    "0 \<le> h" "h < 24" "0 \<le> mi" "mi < 60" "0 \<le> s" "s < 60"
    by (simp_all add: valid_civil_def)
  from v(6) daysIn_le [OF v(3,4), where y = y] have d31: "d \<le> 31" by linarith
  from assms(1) have f: "Year t = y" "Month t = mo" "Day t = d" "Hour t = h" "Minute t = mi"
    "Second t = s"
    by (simp_all add: civil_def)
  have a: "appendInt y 4 = four_digits y" "appendInt mo 2 = two_digits mo"
    "appendInt d 2 = two_digits d" "appendInt h 2 = two_digits h"
    "appendInt mi 2 = two_digits mi" "appendInt s 2 = two_digits s"
    using v d31 by (simp_all add: appendInt_four appendInt_two)
  have p: "targetPathOf root t src =
           root @ ''/'' @ four_digits y @ ''/'' @ two_digits mo @ ''-'' @ two_digits d @ ''-''
             @ two_digits h @ '':'' @ two_digits mi @ '':'' @ two_digits s @ ''-'' @ Base src"
    by (simp add: targetPathOf_def Format_stub f a)
  have dir: "targetDirOf root t = root @ ''/'' @ four_digits y"
    by (simp add: targetDirOf_def Format_dir f a)
  have rt: "civil (DateUTC y mo d h mi s) = (y, mo, d, h, mi, s)"
    by (rule DateUTC_civil [OF v(3-12)])
  have b: "name \<noteq> [] \<and> CHR ''/'' \<notin> set name \<longrightarrow>
            Base (dir @ ''/'' @ name) = name \<and> Base name = name"
    using Base_in_dir [of name dir] Base_alone [of name] by blast
  have e1: "Parse ''2006:01:02 15:04:05'' ''2023:06:15 14:30:05'' = Some (DateUTC 2023 6 15 14 30 5)"
    by code_simp
  have e2: "targetPathOf ''/archive'' (DateUTC 2023 6 15 14 30 5) ''IMG_001.JPG'' =
           ''/archive/2023/06-15-14:30:05-IMG_001.JPG''"
    by code_simp
  from p dir rt b e1 e2 show ?thesis by (simp add: four_digits_def)
qed

theorem C1_destination_layout_witness:
  "civil afternoon_pacific = (2023, 6, 15, 14, 30, 5) \<and>
   valid_civil 2023 6 15 14 30 5 \<and>
   targetPathOf ''/archive'' afternoon_pacific ''/card/IMG_001.JPG'' =
     ''/archive/2023/06-15-14:30:05-IMG_001.JPG'' \<and>
   targetDirOf ''/archive'' afternoon_pacific = ''/archive/2023'' \<and>
   civil (DateUTC 2023 6 15 14 30 5) = (2023, 6, 15, 14, 30, 5)"
proof -
  have c: "civil afternoon_pacific = (2023, 6, 15, 14, 30, 5)" by code_simp
  have v: "valid_civil 2023 6 15 14 30 5" by code_simp
  have d: "four_digits 2023 = ''2023''" "two_digits 6 = ''06''" "two_digits 15 = ''15''"
    "two_digits 14 = ''14''" "two_digits 30 = ''30''" "two_digits 5 = ''05''"
    "Base ''/card/IMG_001.JPG'' = ''IMG_001.JPG''"
    by code_simp+
  note inst = C1_destination_layout [OF c v, where root = "''/archive''" and src = "''/card/IMG_001.JPG''"]
  from inst have "targetPathOf ''/archive'' afternoon_pacific ''/card/IMG_001.JPG'' =
     ''/archive/2023/06-15-14:30:05-IMG_001.JPG''"
    "targetDirOf ''/archive'' afternoon_pacific = ''/archive/2023''"
    "civil (DateUTC 2023 6 15 14 30 5) = (2023, 6, 15, 14, 30, 5)"
    by (simp_all add: d)
  with c v show ?thesis by simp
qed

subsection \<open>Videos\<close>

text \<open>
  The product of line 149 does not wrap: a 32-bit count of seconds times \<open>10\<^sup>9\<close> is
  below \<open>2\<^sup>6\<^sup>3\<close>.
\<close>

lemma Duration_seconds:
  fixes v :: "32 word"
  shows "sint (Second_ns * ucast v :: 64 word) = 1000000000 * uint v"
proof -
  have u: "(ucast v :: 64 word) = word_of_int (uint v)"
    by (rule ucast_eq)
  have m: "(1000000000 :: 64 word) * word_of_int (uint v) = word_of_int (1000000000 * uint v)"
    by (simp only: of_int_mult of_int_numeral)
  have w: "Second_ns * ucast v = (word_of_int (1000000000 * uint v) :: 64 word)"
    unfolding Second_ns_def u by (rule m)
  have "uint v < 4294967296" using uint_bounded [of v] by simp
  then have "1000000000 * uint v < 9223372036854775808" by linarith
  then have hi: "1000000000 * uint v < 2 ^ 63" by simp
  have "0 \<le> uint v" by simp
  then have "- 9223372036854775808 \<le> 1000000000 * uint v" by linarith
  then have lo: "- (2 ^ 63) \<le> 1000000000 * uint v" by simp
  have "sint (word_of_int (1000000000 * uint v) :: 64 word)
          = signed_take_bit (LENGTH(64) - Suc 0) (1000000000 * uint v)"
    by (simp only: signed_of_int of_int_eq_id id_apply)
  also have "LENGTH(64) - Suc 0 = 63" by simp
  also have "signed_take_bit 63 (1000000000 * uint v) = 1000000000 * uint v"
    using lo hi by (rule signed_take_bit_int_eq_self)
  finally show ?thesis unfolding w .
qed

lemma Add_seconds:
  fixes v :: "32 word"
  shows "Add t (Second_ns * ucast v) = t\<lparr>unixSec := unixSec t + uint v\<rparr>"
  by (simp add: Add_def Duration_seconds)

lemma epoch_1904: "DateUTC 1904 1 1 0 0 0 = \<lparr>unixSec = - 2082844800, loc = UTC\<rparr>"
  by code_simp

lemma mp4When_eq:
  "mp4When local m = \<lparr>unixSec = - 2082844800 + uint (CreationTimeV0 m), loc = local\<rparr>"
  by (simp add: mp4When_def Add_seconds epoch_1904 In_def)

lemma epoch_civil: "civil (DateUTC 1904 1 1 0 0 0) = (1904, 1, 1, 0, 0, 0)"
  by code_simp

lemma video_creationTime:
  assumes "kindOf src = Video" "fs st src = Some (File bytes)"
      and "mp4Extract ev bytes = Some [MvhdPayload m]"
  shows "creationTime ev lg src st = (Inr (mp4When (localTimeZone ev) m), emit [EvOpen src] st)"
  using assms
  by (simp add: creationTime_def MP4getMetadata_def fs_open_def fs_stat_def read_all_def Let_def)

lemma example_offset:
  assumes "CreationTimeV0 m = 3786912345"
  shows "mp4When local m = \<lparr>unixSec = 1704067545, loc = local\<rparr>"
  by (simp add: mp4When_eq assms)

lemma example_civil:
  "civil \<lparr>unixSec = 1704067545, loc = UTC\<rparr> = (2024, 1, 1, 0, 5, 45)"
  "civil \<lparr>unixSec = 1704067545, loc = pacific\<rparr> = (2023, 12, 31, 16, 5, 45)"
  "Format \<lparr>unixSec = 1704067545, loc = UTC\<rparr> targetDirFmt = ''/2024''"
  "Format \<lparr>unixSec = 1704067545, loc = pacific\<rparr> targetDirFmt = ''/2023''"
  "Format \<lparr>unixSec = 1704067545, loc = pacific\<rparr> fileDateStubFmt = ''/2023/12-31-16:05:45-''"
  by code_simp+

text \<open>
  Claim C5. The time the program takes from a video is the instant of
  \<^verbatim>\<open>1904-01-01T00:00:00\<close> UTC moved by the seconds of the field \<^verbatim>\<open>CreationTimeV0\<close> of
  the movie header, in the local time zone: its clock reads the clock of the epoch, plus
  the seconds, plus the offset of the zone at that instant. That is what the \<^verbatim>\<open>switch\<close>
  returns for a video with one movie header, and the target directory is the root and
  the year that clock shows. With 3786912345 seconds the clock shows 00:05:45 on
  January 1, 2024 in UTC and 16:05:45 on December 31, 2023 eight hours west of it, where
  the file goes to the directory of 2023.
\<close>

theorem C5_video_creation_time:
  "unixSec (mp4When local m) = unixSec (DateUTC 1904 1 1 0 0 0) + uint (CreationTimeV0 m) \<and>
   loc (mp4When local m) = local \<and>
   civil (DateUTC 1904 1 1 0 0 0) = (1904, 1, 1, 0, 0, 0) \<and>
   loc (DateUTC 1904 1 1 0 0 0) = UTC \<and>
   abs_sec (mp4When local m) =
     abs_sec (DateUTC 1904 1 1 0 0 0) + uint (CreationTimeV0 m)
       + lookup local (unixSec (mp4When local m)) \<and>
   (kindOf src = Video \<and> fs st src = Some (File bytes) \<and>
    mp4Extract ev bytes = Some [MvhdPayload m] \<longrightarrow>
      creationTime ev lg src st = (Inr (mp4When (localTimeZone ev) m), emit [EvOpen src] st)) \<and>
   targetDirOf root (mp4When local m) = root @ ''/'' @ appendInt (Year (mp4When local m)) 4 \<and>
   (CreationTimeV0 m = 3786912345 \<longrightarrow>
      civil (mp4When UTC m) = (2024, 1, 1, 0, 5, 45) \<and>
      civil (mp4When pacific m) = (2023, 12, 31, 16, 5, 45) \<and>
      targetDirOf root (mp4When UTC m) = root @ ''/2024'' \<and>
      targetDirOf root (mp4When pacific m) = root @ ''/2023'' \<and>
      targetPathOf root (mp4When pacific m) src = root @ ''/2023/12-31-16:05:45-'' @ Base src)"
proof -
  have a: "unixSec (mp4When local m) = unixSec (DateUTC 1904 1 1 0 0 0) + uint (CreationTimeV0 m)"
    "loc (mp4When local m) = local" "loc (DateUTC 1904 1 1 0 0 0) = UTC"
    by (simp_all add: mp4When_eq epoch_1904)
  have b: "abs_sec (mp4When local m) =
     abs_sec (DateUTC 1904 1 1 0 0 0) + uint (CreationTimeV0 m)
       + lookup local (unixSec (mp4When local m))"
    by (simp add: abs_sec_def mp4When_eq epoch_1904 UTC_def)
  have c: "kindOf src = Video \<and> fs st src = Some (File bytes) \<and>
    mp4Extract ev bytes = Some [MvhdPayload m] \<longrightarrow>
      creationTime ev lg src st = (Inr (mp4When (localTimeZone ev) m), emit [EvOpen src] st)"
    using video_creationTime [of src st bytes ev m lg] by blast
  have d: "targetDirOf root (mp4When local m) = root @ ''/'' @ appendInt (Year (mp4When local m)) 4"
    by (simp add: targetDirOf_def Format_dir)
  have e: "CreationTimeV0 m = 3786912345 \<longrightarrow>
      civil (mp4When UTC m) = (2024, 1, 1, 0, 5, 45) \<and>
      civil (mp4When pacific m) = (2023, 12, 31, 16, 5, 45) \<and>
      targetDirOf root (mp4When UTC m) = root @ ''/2024'' \<and>
      targetDirOf root (mp4When pacific m) = root @ ''/2023'' \<and>
      targetPathOf root (mp4When pacific m) src = root @ ''/2023/12-31-16:05:45-'' @ Base src"
    by (simp add: example_offset example_civil targetDirOf_def targetPathOf_def)
  from a b c d e epoch_civil show ?thesis by simp
qed

theorem C5_video_creation_time_witness:
  "kindOf ''/card/MOV_003.MP4'' = Video \<and>
   fs card_state ''/card/MOV_003.MP4'' = Some (File ''movie'') \<and>
   mp4Extract card_env ''movie'' = Some [MvhdPayload card_mvhd] \<and>
   CreationTimeV0 card_mvhd = 3786912345 \<and>
   fst (creationTime card_env Console ''/card/MOV_003.MP4'' card_state) =
     Inr (mp4When (localTimeZone card_env) card_mvhd) \<and>
   localTimeZone card_env = pacific \<and>
   civil (mp4When pacific card_mvhd) = (2023, 12, 31, 16, 5, 45) \<and>
   targetDirOf ''/archive'' (mp4When pacific card_mvhd) = ''/archive/2023'' \<and>
   targetPathOf ''/archive'' (mp4When pacific card_mvhd) ''/card/MOV_003.MP4'' =
     ''/archive/2023/12-31-16:05:45-MOV_003.MP4''"
proof -
  have h: "kindOf ''/card/MOV_003.MP4'' = Video"
    "fs card_state ''/card/MOV_003.MP4'' = Some (File ''movie'')"
    "mp4Extract card_env ''movie'' = Some [MvhdPayload card_mvhd]"
    "CreationTimeV0 card_mvhd = 3786912345"
    "localTimeZone card_env = pacific"
    by (simp_all add: kindOf_def Ext_def ToLower_def lower_chars card_state_def card_fs_def
          card_env_def card_mvhd_def)
  have b: "Base ''/card/MOV_003.MP4'' = ''MOV_003.MP4''" by code_simp
  note inst = C5_video_creation_time [where m = card_mvhd and src = "''/card/MOV_003.MP4''"
      and st = card_state and bytes = "''movie''" and ev = card_env and lg = Console
      and root = "''/archive''" and local = pacific]
  from inst h have 1: "creationTime card_env Console ''/card/MOV_003.MP4'' card_state =
      (Inr (mp4When (localTimeZone card_env) card_mvhd), emit [EvOpen ''/card/MOV_003.MP4''] card_state)"
    by blast
  from inst h(4) have 2: "civil (mp4When pacific card_mvhd) = (2023, 12, 31, 16, 5, 45)"
    "targetDirOf ''/archive'' (mp4When pacific card_mvhd) = ''/archive'' @ ''/2023''"
    "targetPathOf ''/archive'' (mp4When pacific card_mvhd) ''/card/MOV_003.MP4'' =
       ''/archive'' @ ''/2023/12-31-16:05:45-'' @ Base ''/card/MOV_003.MP4''"
    by blast+
  from h 1 2 b show ?thesis by simp
qed

end
